theory Spec2Isabelle
  imports Complex_Main "HOL-Library.Word" "HOL-Library.Multiset" "HOL-Library.Log_Nat"
begin

section \<open>Chunked streaming of the response\<close>

text \<open>
  A JavaScript string is a sequence of UTF-16 code units; \<open>chunk.length\<close> counts code
  units and \<open>chunk.slice(i, j)\<close> cuts between code units. The streaming routine is
  the same in the three handlers; it is written once here, over lists of any element
  type, and read at \<open>16 word list\<close> wherever bytes are counted.
\<close>

type_synonym jsstring = "16 word list"

definition CHUNK_SIZE :: nat where
  "CHUNK_SIZE = 25 * 1024"

text \<open>
  The response stream is observed through the calls made on it, in order:
  \<open>setContentType\<close>, \<open>write\<close> and \<open>end\<close>. A write of a string on a Node
  writable does not throw, so each call only extends the record of calls.
\<close>

datatype 'c stream_call = SetContentType string | Write 'c | End

type_synonym 'c responseStream = "'c stream_call list"

text \<open>\<open>chunk.slice(i, j)\<close> for \<open>0 \<le> i \<le> j\<close>: the end is clamped to the length.\<close>

definition js_slice :: "nat \<Rightarrow> nat \<Rightarrow> 'a list \<Rightarrow> 'a list" where
  "js_slice i j xs = take (j - i) (drop i xs)"

text \<open>
  \<open>for (let i = 0; i < chunk.length; i += CHUNK_SIZE) write(chunk.slice(i, i + CHUNK_SIZE))\<close>,
  started at any \<open>i\<close>.
\<close>

function write_slices :: "nat \<Rightarrow> 'a list \<Rightarrow> 'a list responseStream \<Rightarrow> 'a list responseStream" where
  "write_slices i chunk rs =
     (if i < length chunk
      then write_slices (i + CHUNK_SIZE) chunk (rs @ [Write (js_slice i (i + CHUNK_SIZE) chunk)])
      else rs)"
  by pat_completeness auto
termination
  by (relation "measure (\<lambda>(i, chunk, rs). length chunk - i)") (auto simp: CHUNK_SIZE_def)

declare write_slices.simps [simp del]

text \<open>
  \<open>Readable.from(jsonResponse)\<close> on a string does not iterate the string: the stream
  yields the whole string as its only chunk.
\<close>

definition Readable_from :: "'a list \<Rightarrow> 'a list list" where
  "Readable_from s = [s]"

text \<open>The body of the \<open>for await\<close> loop, for one chunk of the readable.\<close>

definition write_chunk :: "'a list responseStream \<Rightarrow> 'a list \<Rightarrow> 'a list responseStream" where
  "write_chunk rs chunk =
     (if length chunk > CHUNK_SIZE then write_slices 0 chunk rs else rs @ [Write chunk])"

text \<open>
  \<open>streamFunctionResponse\<close>, from the serialized response on (\<open>JSON.stringify\<close> is
  a parameter of the handlers below): every chunk of the readable is written, then the
  stream is ended.
\<close>

definition streamFunctionResponse :: "'a list \<Rightarrow> 'a list responseStream \<Rightarrow> 'a list responseStream" where
  "streamFunctionResponse jsonResponse responseStream =
     foldl write_chunk responseStream (Readable_from jsonResponse) @ [End]"

text \<open>
  The size in bytes of a string once written: \<open>write\<close> encodes it as UTF-8, where a
  code unit below \<open>0x80\<close> takes one byte, one below \<open>0x800\<close> two, a surrogate pair
  four, and any other code unit (a lone surrogate is replaced by U+FFFD) three. This
  is what \<open>Buffer.byteLength\<close> returns.
\<close>

definition is_high_surrogate :: "16 word \<Rightarrow> bool" where
  "is_high_surrogate u = (0xD800 \<le> u \<and> u \<le> 0xDBFF)"

definition is_low_surrogate :: "16 word \<Rightarrow> bool" where
  "is_low_surrogate u = (0xDC00 \<le> u \<and> u \<le> 0xDFFF)"

definition unit_bytes :: "16 word \<Rightarrow> nat" where
  "unit_bytes u = (if u < 0x80 then 1 else if u < 0x800 then 2 else 3)"

fun byteLength :: "jsstring \<Rightarrow> nat" where
  "byteLength [] = 0"
| "byteLength [u] = unit_bytes u"
| "byteLength (u # v # r) =
     (if is_high_surrogate u \<and> is_low_surrogate v then 4 + byteLength r
      else unit_bytes u + byteLength (v # r))"

text \<open>A string of ASCII characters as code units.\<close>

definition ascii :: "string \<Rightarrow> jsstring" where
  "ascii s = map (\<lambda>c. of_nat (of_char c)) s"

text \<open>The slices of a string from position \<open>i\<close> on, as the loop cuts them.\<close>

function slices_from :: "nat \<Rightarrow> 'a list \<Rightarrow> 'a list list" where
  "slices_from i chunk =
     (if i < length chunk
      then js_slice i (i + CHUNK_SIZE) chunk # slices_from (i + CHUNK_SIZE) chunk
      else [])"
  by pat_completeness auto
termination
  by (relation "measure (\<lambda>(i, chunk). length chunk - i)") (auto simp: CHUNK_SIZE_def)

declare slices_from.simps [simp del]

definition chunks_of :: "'a list \<Rightarrow> 'a list list" where
  "chunks_of s = (if length s > CHUNK_SIZE then slices_from 0 s else [s])"

section \<open>JavaScript values\<close>

text \<open>
  A number is an IEEE 754 double: \<open>NaN\<close>, an infinity, or a finite value, given by
  the rational it stands for. The result of an addition or subtraction of finite values
  is the exact result rounded to the nearest double, ties to the even significand,
  and an infinity when the rounded magnitude reaches \<open>2^1024\<close>. The sign of zero is
  not modelled.
\<close>

datatype jsnum = NaN | Num rat | PInf | NInf

definition pow2 :: "int \<Rightarrow> rat" where
  "pow2 k = (if 0 \<le> k then 2 ^ nat k else 1 / 2 ^ nat (- k))"

text \<open>\<open>ilog2 x\<close> is the exponent \<open>e\<close> with \<open>2^e \<le> x < 2^(e+1)\<close>, for \<open>x > 0\<close>.\<close>

definition ilog2 :: "rat \<Rightarrow> int" where
  "ilog2 x = (if 1 \<le> x then bitlen \<lfloor>x\<rfloor> - 1 else - bitlen (\<lceil>1 / x\<rceil> - 1))"

definition round_half_even :: "rat \<Rightarrow> int" where
  "round_half_even y =
     (let f = \<lfloor>y\<rfloor>; d = y - of_int f
      in if d < 1 / 2 then f else if 1 / 2 < d then f + 1 else if even f then f else f + 1)"

text \<open>
  Rounding to a double: the significand has 53 bits, so the spacing of doubles around
  \<open>x\<close> is \<open>2^(e - 52)\<close>, and \<open>2^(-1074)\<close> in the subnormal range.
\<close>

definition round_double :: "rat \<Rightarrow> jsnum" where
  "round_double x =
     (if x = 0 then Num 0
      else let k = max (ilog2 \<bar>x\<bar> - 52) (- 1074);
               r = of_int (round_half_even (x / pow2 k)) * pow2 k
           in if pow2 1024 \<le> r then PInf else if r \<le> - pow2 1024 then NInf else Num r)"

text \<open>A rational is the value of a double when rounding leaves it as it is.\<close>

definition is_double :: "rat \<Rightarrow> bool" where
  "is_double r = (round_double r = Num r)"

fun js_add :: "jsnum \<Rightarrow> jsnum \<Rightarrow> jsnum" where
  "js_add (Num a) (Num b) = round_double (a + b)"
| "js_add NaN _ = NaN"
| "js_add _ NaN = NaN"
| "js_add PInf NInf = NaN"
| "js_add NInf PInf = NaN"
| "js_add PInf _ = PInf"
| "js_add _ PInf = PInf"
| "js_add NInf _ = NInf"
| "js_add _ NInf = NInf"

fun js_sub :: "jsnum \<Rightarrow> jsnum \<Rightarrow> jsnum" where
  "js_sub (Num a) (Num b) = round_double (a - b)"
| "js_sub NaN _ = NaN"
| "js_sub _ NaN = NaN"
| "js_sub PInf PInf = NaN"
| "js_sub NInf NInf = NaN"
| "js_sub PInf _ = PInf"
| "js_sub _ PInf = NInf"
| "js_sub NInf _ = NInf"
| "js_sub _ NInf = PInf"

text \<open>
  A property that an object lacks reads as \<open>undefined\<close>, here \<open>None\<close>. As an
  operand of \<open>+\<close> between numbers, \<open>undefined\<close> converts to \<open>NaN\<close>. A number
  received from the remote service is a finite double, given by its value.
\<close>

definition to_number :: "rat option \<Rightarrow> jsnum" where
  "to_number v = (case v of None \<Rightarrow> NaN | Some r \<Rightarrow> Num r)"

text \<open>\<open>v || 0\<close>: \<open>undefined\<close>, \<open>NaN\<close> and \<open>0\<close> are falsy.\<close>

definition or_zero :: "jsnum option \<Rightarrow> jsnum" where
  "or_zero v =
     (case v of
        None \<Rightarrow> Num 0
      | Some NaN \<Rightarrow> Num 0
      | Some (Num r) \<Rightarrow> (if r = 0 then Num 0 else Num r)
      | Some PInf \<Rightarrow> PInf
      | Some NInf \<Rightarrow> NInf)"

text \<open>\<open>v || ''\<close> and the truth value of a string: \<open>undefined\<close> and \<open>''\<close> are falsy.\<close>

definition or_empty :: "string option \<Rightarrow> string" where
  "or_empty v = (case v of None \<Rightarrow> [] | Some t \<Rightarrow> (if t = [] then [] else t))"

definition truthy :: "string option \<Rightarrow> bool" where
  "truthy v = (case v of None \<Rightarrow> False | Some t \<Rightarrow> t \<noteq> [])"

text \<open>\<open>xs?.[0]\<close> on an array.\<close>

definition first_elem :: "'a list \<Rightarrow> 'a option" where
  "first_elem xs = (case xs of [] \<Rightarrow> None | x # _ \<Rightarrow> Some x)"

text \<open>
  \<open>Number(x.toFixed(2))\<close>. \<open>toFixed\<close> prints \<open>NaN\<close> and the infinities as they
  are, and a value of magnitude \<open>10^21\<close> or more as \<open>String(x)\<close>, which \<open>Number\<close>
  reads back as \<open>x\<close>. Otherwise it takes the sign off, picks the integer \<open>n\<close> with
  \<open>n / 100\<close> nearest to the magnitude, the larger one on a tie, and prints the sign
  and \<open>n / 100\<close> in decimal; \<open>Number\<close> reads that as the nearest double.
\<close>

definition to_fixed2 :: "jsnum \<Rightarrow> jsnum" where
  "to_fixed2 v =
     (case v of
        NaN \<Rightarrow> NaN
      | PInf \<Rightarrow> PInf
      | NInf \<Rightarrow> NInf
      | Num r \<Rightarrow>
          if 10 ^ 21 \<le> \<bar>r\<bar> then Num r
          else round_double (sgn r * of_int \<lfloor>\<bar>r\<bar> * 100 + 1 / 2\<rfloor> / 100))"

text \<open>
  \<open>Array.prototype.sort(comparefn)\<close> is stable and places \<open>x\<close> after \<open>y\<close> only when
  \<open>comparefn(x, y) > 0\<close>; a comparator result of \<open>NaN\<close> counts as \<open>0\<close>. The model is
  the stable insertion sort with that test.
\<close>

definition positive :: "jsnum \<Rightarrow> bool" where
  "positive v = (case v of NaN \<Rightarrow> False | Num r \<Rightarrow> 0 < r | PInf \<Rightarrow> True | NInf \<Rightarrow> False)"

fun insert_by :: "('a \<Rightarrow> 'a \<Rightarrow> jsnum) \<Rightarrow> 'a \<Rightarrow> 'a list \<Rightarrow> 'a list" where
  "insert_by comparefn x [] = [x]"
| "insert_by comparefn x (y # ys) =
     (if positive (comparefn x y) then y # insert_by comparefn x ys else x # y # ys)"

definition array_sort :: "('a \<Rightarrow> 'a \<Rightarrow> jsnum) \<Rightarrow> 'a list \<Rightarrow> 'a list" where
  "array_sort comparefn xs = foldr (insert_by comparefn) xs []"

datatype error = Error (message: string)

section \<open>The remote service\<close>

text \<open>The records of the Trusted Advisor API that the handlers read.\<close>

record resources_aggregates =
  errorCount :: "rat option"
  warningCount :: "rat option"

record cost_optimizing =
  co_estimatedMonthlySavings :: "rat option"

record pillar_aggregates =
  costOptimizing :: "cost_optimizing option"

record recommendation_summary =
  rs_arn :: string
  rs_name :: string
  rs_id :: string
  rs_status :: string
  pillarSpecificAggregates :: "pillar_aggregates option"
  resourcesAggregates :: "resources_aggregates option"

record recommended_action =
  ra_description :: "string option"

record detail_resource =
  dr_resourceId :: "string option"
  dr_status :: string
  dr_metadata :: "(string \<times> string) list option"

record recommendation_detail =
  rd_description :: "string option"
  rd_recommendedActions :: "recommended_action list option"
  rd_resources :: "detail_resource list option"

record get_recommendation_output =
  go_recommendation :: "recommendation_detail option"

record resource_summary =
  src_id :: string
  src_arn :: string
  src_awsResourceId :: string
  src_regionCode :: string
  src_status :: string
  src_metadata :: "(string \<times> string) list"
  src_lastUpdatedAt :: string
  src_exclusionStatus :: string
  src_recommendationArn :: string

record list_recommendations_input =
  li_maxResults :: nat
  li_pillar :: string
  li_status :: string
  li_nextToken :: "string option"

record list_recommendations_output =
  recommendationSummaries :: "recommendation_summary list option"
  lo_nextToken :: "string option"

record get_recommendation_input =
  gi_recommendationIdentifier :: string

record list_resources_input =
  lr_maxResults :: nat
  lr_recommendationIdentifier :: string
  lr_nextToken :: "string option"

record list_resources_output =
  recommendationResourceSummaries :: "resource_summary list option"
  lro_nextToken :: "string option"

datatype command =
    ListRecommendationsCommand list_recommendations_input
  | GetRecommendationCommand get_recommendation_input
  | ListRecommendationResourcesCommand list_resources_input

text \<open>
  \<open>client.send(command)\<close> either returns the output of the command or throws. The
  remote service has a state \<open>'s\<close> of its own, which every call may change.
\<close>

record 's client =
  send_list :: "list_recommendations_input \<Rightarrow> 's \<Rightarrow> (error + list_recommendations_output) \<times> 's"
  send_get :: "get_recommendation_input \<Rightarrow> 's \<Rightarrow> (error + get_recommendation_output) \<times> 's"
  send_list_resources :: "list_resources_input \<Rightarrow> 's \<Rightarrow> (error + list_resources_output) \<times> 's"

text \<open>
  A remote service given by the answers it will return, call after call, for each kind
  of command; it records the commands it receives. Once out of answers it rejects
  the call.
\<close>

record remote =
  list_answers :: "(error + list_recommendations_output) list"
  get_answers :: "(error + get_recommendation_output) list"
  resource_answers :: "(error + list_resources_output) list"
  calls :: "command list"

definition no_answer :: error where
  "no_answer = Error ''no answer''"

definition scripted_list :: "list_recommendations_input \<Rightarrow> remote \<Rightarrow> (error + list_recommendations_output) \<times> remote" where
  "scripted_list input r =
     (case list_answers r of
        [] \<Rightarrow> (Inl no_answer, r\<lparr>calls := calls r @ [ListRecommendationsCommand input]\<rparr>)
      | a # as \<Rightarrow> (a, r\<lparr>list_answers := as, calls := calls r @ [ListRecommendationsCommand input]\<rparr>))"

definition scripted_get :: "get_recommendation_input \<Rightarrow> remote \<Rightarrow> (error + get_recommendation_output) \<times> remote" where
  "scripted_get input r =
     (case get_answers r of
        [] \<Rightarrow> (Inl no_answer, r\<lparr>calls := calls r @ [GetRecommendationCommand input]\<rparr>)
      | a # as \<Rightarrow> (a, r\<lparr>get_answers := as, calls := calls r @ [GetRecommendationCommand input]\<rparr>))"

definition scripted_list_resources :: "list_resources_input \<Rightarrow> remote \<Rightarrow> (error + list_resources_output) \<times> remote" where
  "scripted_list_resources input r =
     (case resource_answers r of
        [] \<Rightarrow> (Inl no_answer, r\<lparr>calls := calls r @ [ListRecommendationResourcesCommand input]\<rparr>)
      | a # as \<Rightarrow> (a, r\<lparr>resource_answers := as, calls := calls r @ [ListRecommendationResourcesCommand input]\<rparr>))"

definition scripted :: "remote client" where
  "scripted = \<lparr>send_list = scripted_list, send_get = scripted_get,
     send_list_resources = scripted_list_resources\<rparr>"

section \<open>Findings\<close>

record finding_resource =
  fr_resourceId :: string
  fr_region :: string
  fr_status :: string
  fr_metadata :: "(string \<times> string) list"

text \<open>The security handler builds findings without \<open>estimatedMonthlySavings\<close>.\<close>

record finding =
  f_recommendationIdentifier :: string
  f_checkName :: string
  f_checkId :: string
  f_status :: string
  f_description :: string
  f_recommendedAction :: string
  f_resourceCount :: jsnum
  f_estimatedMonthlySavings :: "jsnum option"
  f_resources :: "finding_resource list"

text \<open>The callback of \<open>resources?.map(...)\<close>.\<close>

definition flat_resource :: "detail_resource \<Rightarrow> finding_resource" where
  "flat_resource resource =
     \<lparr>fr_resourceId = or_empty (dr_resourceId resource),
      fr_region = or_empty (Option.bind (dr_metadata resource) (\<lambda>m. map_of m ''region'')),
      fr_status = dr_status resource,
      fr_metadata = (case dr_metadata resource of None \<Rightarrow> [] | Some m \<Rightarrow> m)\<rparr>"

text \<open>
  The object pushed by the cost handler. \<open>x?.f\<close> and \<open>(x || {}).f\<close> both read
  \<open>undefined\<close> when \<open>x\<close> is absent: \<open>Option.bind\<close>.
\<close>

definition cost_finding :: "recommendation_summary \<Rightarrow> get_recommendation_output \<Rightarrow> finding" where
  "cost_finding recommendation detailResponse =
     (let costAggregates = Option.bind (pillarSpecificAggregates recommendation) costOptimizing;
          resourceAggregates = resourcesAggregates recommendation
      in \<lparr>f_recommendationIdentifier = rs_arn recommendation,
          f_checkName = rs_name recommendation,
          f_checkId = rs_id recommendation,
          f_status = rs_status recommendation,
          f_description = or_empty (Option.bind (go_recommendation detailResponse) rd_description),
          f_recommendedAction =
            or_empty (Option.bind (Option.bind (Option.bind (go_recommendation detailResponse)
              rd_recommendedActions) first_elem) ra_description),
          f_resourceCount =
            js_add (to_number (Option.bind resourceAggregates errorCount))
              (to_number (Option.bind resourceAggregates warningCount)),
          f_estimatedMonthlySavings =
            Some (or_zero (map_option Num (Option.bind costAggregates co_estimatedMonthlySavings))),
          f_resources =
            (case Option.bind (go_recommendation detailResponse) rd_resources of
               None \<Rightarrow> []
             | Some rs \<Rightarrow> map flat_resource rs)\<rparr>)"

text \<open>The object pushed by the security handler.\<close>

definition security_finding :: "recommendation_summary \<Rightarrow> get_recommendation_output \<Rightarrow> finding" where
  "security_finding rec detail =
     (let resourceAggregates = resourcesAggregates rec
      in \<lparr>f_recommendationIdentifier = rs_arn rec,
          f_checkName = rs_name rec,
          f_checkId = rs_id rec,
          f_status = rs_status rec,
          f_description = or_empty (Option.bind (go_recommendation detail) rd_description),
          f_recommendedAction =
            or_empty (Option.bind (Option.bind (Option.bind (go_recommendation detail)
              rd_recommendedActions) first_elem) ra_description),
          f_resourceCount =
            js_add (to_number (Option.bind resourceAggregates errorCount))
              (to_number (Option.bind resourceAggregates warningCount)),
          f_estimatedMonthlySavings = None,
          f_resources =
            (case Option.bind (go_recommendation detail) rd_resources of
               None \<Rightarrow> []
             | Some rs \<Rightarrow> map flat_resource rs)\<rparr>)"

section \<open>Enrichment and pagination\<close>

text \<open>
  The loop over the summaries of one page, the same in the cost and the security
  handler up to the object pushed (\<open>mk\<close>): each summary's detail is fetched inside a
  \<open>try\<close>; when the fetch throws, the error is logged and the loop goes on to the next
  summary.
\<close>

fun enrich_all ::
  "(recommendation_summary \<Rightarrow> get_recommendation_output \<Rightarrow> finding) \<Rightarrow> 's client \<Rightarrow>
   recommendation_summary list \<Rightarrow> finding list \<Rightarrow> 's \<Rightarrow> finding list \<times> 's" where
  "enrich_all mk client [] findings s = (findings, s)"
| "enrich_all mk client (recommendation # rest) findings s =
     (case send_get client \<lparr>gi_recommendationIdentifier = rs_arn recommendation\<rparr> s of
        (Inl e, s') \<Rightarrow> enrich_all mk client rest findings s'
      | (Inr detailResponse, s') \<Rightarrow>
          enrich_all mk client rest (findings @ [mk recommendation detailResponse]) s')"

text \<open>\<open>if (nextToken) input.nextToken = nextToken\<close>.\<close>

definition with_token :: "list_recommendations_input \<Rightarrow> string option \<Rightarrow> list_recommendations_input" where
  "with_token input nextToken =
     (if truthy nextToken then input\<lparr>li_nextToken := nextToken\<rparr> else input)"

text \<open>
  The \<open>while (hasMoreResults)\<close> loop of the cost handler. The \<open>input\<close> object lives
  across iterations. Iterating an absent \<open>recommendationSummaries\<close> throws a
  \<open>TypeError\<close>. The loop has no bound of its own: it ends when the remote service
  returns no token, and \<open>None\<close> stands for a run that never ends.
\<close>

partial_function (option) cost_list_loop ::
  "'s client \<Rightarrow> list_recommendations_input \<Rightarrow> string option \<Rightarrow> finding list \<Rightarrow> 's \<Rightarrow>
   ((error + finding list) \<times> 's) option" where
  "cost_list_loop client input nextToken findings s =
     (case send_list client (with_token input nextToken) s of
        (Inl e, s1) \<Rightarrow> Some (Inl e, s1)
      | (Inr response, s1) \<Rightarrow>
          (case recommendationSummaries response of
             None \<Rightarrow> Some (Inl (Error ''response.recommendationSummaries is not iterable''), s1)
           | Some summaries \<Rightarrow>
               (case enrich_all cost_finding client summaries findings s1 of
                  (findings', s2) \<Rightarrow>
                    if truthy (lo_nextToken response)
                    then cost_list_loop client (with_token input nextToken) (lo_nextToken response) findings' s2
                    else Some (Inr findings', s2))))"

text \<open>The comparator \<open>(a, b) => (b.estimatedMonthlySavings || 0) - (a.estimatedMonthlySavings || 0)\<close>.\<close>

definition by_savings :: "finding \<Rightarrow> finding \<Rightarrow> jsnum" where
  "by_savings a b =
     js_sub (or_zero (f_estimatedMonthlySavings b)) (or_zero (f_estimatedMonthlySavings a))"

text \<open>
  \<open>get_trusted_advisor_findings\<close>: the loop, then the sort; an error of the loop is
  logged and thrown again.
\<close>

definition get_trusted_advisor_findings :: "'s client \<Rightarrow> 's \<Rightarrow> ((error + finding list) \<times> 's) option" where
  "get_trusted_advisor_findings client s =
     (case cost_list_loop client
             \<lparr>li_maxResults = 200, li_pillar = ''cost_optimizing'', li_status = ''warning'',
              li_nextToken = None\<rparr> None [] s of
        None \<Rightarrow> None
      | Some (Inl e, s') \<Rightarrow> Some (Inl e, s')
      | Some (Inr findings, s') \<Rightarrow> Some (Inr (array_sort by_savings findings), s'))"

text \<open>
  The \<open>do ... while (nextToken)\<close> loop of the security handler: the input is built
  anew in each iteration, and an absent \<open>recommendationSummaries\<close> is read as \<open>[]\<close>.
\<close>

partial_function (option) security_list_loop ::
  "'s client \<Rightarrow> string option \<Rightarrow> finding list \<Rightarrow> 's \<Rightarrow> ((error + finding list) \<times> 's) option" where
  "security_list_loop client nextToken findings s =
     (case send_list client
             (with_token \<lparr>li_maxResults = 200, li_pillar = ''security'', li_status = ''warning'',
                li_nextToken = None\<rparr> nextToken) s of
        (Inl e, s1) \<Rightarrow> Some (Inl e, s1)
      | (Inr response, s1) \<Rightarrow>
          (case enrich_all security_finding client
                  (case recommendationSummaries response of None \<Rightarrow> [] | Some summaries \<Rightarrow> summaries)
                  findings s1 of
             (findings', s2) \<Rightarrow>
               if truthy (lo_nextToken response)
               then security_list_loop client (lo_nextToken response) findings' s2
               else Some (Inr findings', s2)))"

definition get_security_findings :: "'s client \<Rightarrow> 's \<Rightarrow> ((error + finding list) \<times> 's) option" where
  "get_security_findings client s = security_list_loop client None [] s"

text \<open>The resource list: each summary of a page is copied field by field.\<close>

record resource_record =
  rr_id :: string
  rr_taResourceArn :: string
  rr_awsResourceId :: string
  rr_regionCode :: string
  rr_status :: string
  rr_metadata :: "(string \<times> string) list"
  rr_lastUpdatedAt :: string
  rr_exclusionStatus :: string
  rr_recommendationArn :: string

definition to_record :: "resource_summary \<Rightarrow> resource_record" where
  "to_record resource =
     \<lparr>rr_id = src_id resource,
      rr_taResourceArn = src_arn resource,
      rr_awsResourceId = src_awsResourceId resource,
      rr_regionCode = src_regionCode resource,
      rr_status = src_status resource,
      rr_metadata = src_metadata resource,
      rr_lastUpdatedAt = src_lastUpdatedAt resource,
      rr_exclusionStatus = src_exclusionStatus resource,
      rr_recommendationArn = src_recommendationArn resource\<rparr>"

definition with_resource_token :: "list_resources_input \<Rightarrow> string option \<Rightarrow> list_resources_input" where
  "with_resource_token input nextToken =
     (if truthy nextToken then input\<lparr>lr_nextToken := nextToken\<rparr> else input)"

partial_function (option) resource_list_loop ::
  "'s client \<Rightarrow> list_resources_input \<Rightarrow> string option \<Rightarrow> resource_record list \<Rightarrow> 's \<Rightarrow>
   ((error + resource_record list) \<times> 's) option" where
  "resource_list_loop client input nextToken resources s =
     (case send_list_resources client (with_resource_token input nextToken) s of
        (Inl e, s1) \<Rightarrow> Some (Inl e, s1)
      | (Inr response, s1) \<Rightarrow>
          (let resources' =
                 (case recommendationResourceSummaries response of
                    None \<Rightarrow> resources
                  | Some summaries \<Rightarrow> resources @ map to_record summaries)
           in if truthy (lro_nextToken response)
              then resource_list_loop client (with_resource_token input nextToken)
                     (lro_nextToken response) resources' s1
              else Some (Inr resources', s1)))"

definition get_resource_list :: "'s client \<Rightarrow> string \<Rightarrow> 's \<Rightarrow> ((error + resource_record list) \<times> 's) option" where
  "get_resource_list client recommendationIdentifier s =
     resource_list_loop client
       \<lparr>lr_maxResults = 200, lr_recommendationIdentifier = recommendationIdentifier,
        lr_nextToken = None\<rparr> None [] s"

section \<open>Events, envelopes and handlers\<close>

record parameter =
  param_name :: string
  param_value :: "string option"

record event =
  event_actionGroup :: "string option"
  event_function :: "string option"
  event_parameters :: "parameter list option"

record checks_summary =
  totalFindings :: nat
  totalPotentialSavings :: "jsnum option"
  checks_lastUpdated :: string

record checks =
  checks_summary :: checks_summary
  checks_findings :: "finding list"

record resources_summary =
  totalResources :: nat
  resources_lastUpdated :: string

record resourcesData =
  resources_summary :: resources_summary
  resources_resources :: "resource_record list"

text \<open>
  The \<open>body\<close> of an envelope is the JSON text of one of three objects:
  \<open>{checks}\<close>, \<open>{resourcesData}\<close> or \<open>{error: e.message}\<close>. The text is
  represented by the object it encodes.
\<close>

datatype body = ChecksBody checks | ResourcesBody resourcesData | ErrorBody string

text \<open>
  \<open>response_body\<close> is \<open>response.functionResponse.responseBody.TEXT.body\<close>. A
  property whose value is \<open>undefined\<close> is absent from the envelope: \<open>None\<close>.
\<close>

record response =
  response_actionGroup :: string
  response_function :: "string option"
  response_responseState :: "string option"
  response_body :: body

record envelope =
  messageVersion :: string
  envelope_response :: response

definition function_response :: "event \<Rightarrow> body \<Rightarrow> envelope" where
  "function_response event b =
     \<lparr>messageVersion = ''1.0'',
      envelope_response =
        \<lparr>response_actionGroup = or_empty (event_actionGroup event),
         response_function = event_function event,
         response_responseState = None,
         response_body = b\<rparr>\<rparr>"

definition error_function_response :: "event \<Rightarrow> error \<Rightarrow> envelope" where
  "error_function_response event e =
     \<lparr>messageVersion = ''1.0'',
      envelope_response =
        \<lparr>response_actionGroup = or_empty (event_actionGroup event),
         response_function = event_function event,
         response_responseState = Some ''REPROMPT'',
         response_body = ErrorBody (message e)\<rparr>\<rparr>"

text \<open>
  The handlers take \<open>JSON.stringify\<close> on envelopes (\<open>stringify\<close>) and the formatted
  current time (\<open>now\<close>) as parameters. They return the envelope handed to
  \<open>streamFunctionResponse\<close>, the response stream and the state of the remote service
  after the invocation; \<open>None\<close> when the pagination never ends.
\<close>

text \<open>The cost handler (\<open>trusted_advisor_list_recommendations\<close>).\<close>

definition total_savings :: "finding list \<Rightarrow> jsnum" where
  "total_savings findings =
     foldl (\<lambda>sum finding. js_add sum (or_zero (f_estimatedMonthlySavings finding))) (Num 0) findings"

definition cost_handler ::
  "(envelope \<Rightarrow> jsstring) \<Rightarrow> string \<Rightarrow> 's client \<Rightarrow> event \<Rightarrow> jsstring responseStream \<Rightarrow> 's \<Rightarrow>
   (envelope \<times> jsstring responseStream \<times> 's) option" where
  "cost_handler stringify now client event responseStream s =
     (let responseStream1 = responseStream @ [SetContentType ''application/json'']
      in case get_trusted_advisor_findings client s of
           None \<Rightarrow> None
         | Some (Inl e, s') \<Rightarrow>
             (let error_response = error_function_response event e
              in Some (error_response,
                   streamFunctionResponse (stringify error_response) responseStream1, s'))
         | Some (Inr findings, s') \<Rightarrow>
             (let totalSavings = total_savings findings;
                  checks =
                    \<lparr>checks_summary =
                       \<lparr>totalFindings = length findings,
                        totalPotentialSavings = Some (to_fixed2 totalSavings),
                        checks_lastUpdated = now\<rparr>,
                     checks_findings = findings\<rparr>;
                  success_response = function_response event (ChecksBody checks)
              in Some (success_response,
                   streamFunctionResponse (stringify success_response) responseStream1, s')))"

text \<open>The security handler (\<open>trusted_advisor_security\<close>).\<close>

definition security_handler ::
  "(envelope \<Rightarrow> jsstring) \<Rightarrow> string \<Rightarrow> 's client \<Rightarrow> event \<Rightarrow> jsstring responseStream \<Rightarrow> 's \<Rightarrow>
   (envelope \<times> jsstring responseStream \<times> 's) option" where
  "security_handler stringify now client event responseStream s =
     (let responseStream1 = responseStream @ [SetContentType ''application/json'']
      in case get_security_findings client s of
           None \<Rightarrow> None
         | Some (Inl e, s') \<Rightarrow>
             (let error_response = error_function_response event e
              in Some (error_response,
                   streamFunctionResponse (stringify error_response) responseStream1, s'))
         | Some (Inr findings, s') \<Rightarrow>
             (let checks =
                    \<lparr>checks_summary =
                       \<lparr>totalFindings = length findings,
                        totalPotentialSavings = None,
                        checks_lastUpdated = now\<rparr>,
                     checks_findings = findings\<rparr>;
                  success_response = function_response event (ChecksBody checks)
              in Some (success_response,
                   streamFunctionResponse (stringify success_response) responseStream1, s')))"

text \<open>
  The resource list handler (\<open>trusted_advisor_list_recommendation_resources\<close>):
  \<open>event.parameters?.find(param => param.name === "recommendationIdentifier")?.value\<close>,
  then \<open>if (!recommendationIdentifier) throw\<close> before the list is fetched.
\<close>

definition find_recommendationIdentifier :: "event \<Rightarrow> string option" where
  "find_recommendationIdentifier event =
     Option.bind
       (Option.bind (event_parameters event)
          (List.find (\<lambda>param. param_name param = ''recommendationIdentifier'')))
       param_value"

definition resource_handler ::
  "(envelope \<Rightarrow> jsstring) \<Rightarrow> string \<Rightarrow> 's client \<Rightarrow> event \<Rightarrow> jsstring responseStream \<Rightarrow> 's \<Rightarrow>
   (envelope \<times> jsstring responseStream \<times> 's) option" where
  "resource_handler stringify now client event responseStream s =
     (let responseStream1 = responseStream @ [SetContentType ''application/json''];
          recommendationIdentifier = find_recommendationIdentifier event;
          thrown =
            (if \<not> truthy recommendationIdentifier
             then Some (Inl (Error ''recommendationIdentifier is required''), s)
             else get_resource_list client (or_empty recommendationIdentifier) s)
      in case thrown of
           None \<Rightarrow> None
         | Some (Inl e, s') \<Rightarrow>
             (let error_response = error_function_response event e
              in Some (error_response,
                   streamFunctionResponse (stringify error_response) responseStream1, s'))
         | Some (Inr resources, s') \<Rightarrow>
             (let resourcesData =
                    \<lparr>resources_summary =
                       \<lparr>totalResources = length resources, resources_lastUpdated = now\<rparr>,
                     resources_resources = resources\<rparr>;
                  success_response = function_response event (ResourcesBody resourcesData)
              in Some (success_response,
                   streamFunctionResponse (stringify success_response) responseStream1, s')))"

section \<open>Notions used to state the properties\<close>

text \<open>The number that the comparator and the sum read from a finding: \<open>f.estimatedMonthlySavings || 0\<close>.\<close>

definition savings :: "finding \<Rightarrow> rat" where
  "savings f = (case or_zero (f_estimatedMonthlySavings f) of Num r \<Rightarrow> r | _ \<Rightarrow> 0)"

definition numeric_savings :: "finding \<Rightarrow> bool" where
  "numeric_savings f = (case f_estimatedMonthlySavings f of Some (Num r) \<Rightarrow> True | _ \<Rightarrow> False)"

text \<open>\<open>a\<close> may stand before \<open>b\<close> in non-increasing order of \<open>estimatedMonthlySavings\<close>.\<close>

definition savings_ge :: "finding \<Rightarrow> finding \<Rightarrow> bool" where
  "savings_ge a b =
     (case (f_estimatedMonthlySavings a, f_estimatedMonthlySavings b) of
        (Some (Num x), Some (Num y)) \<Rightarrow> y \<le> x
      | _ \<Rightarrow> False)"

text \<open>A cost finding with a name and a saving, for examples.\<close>

definition example_finding :: "string \<Rightarrow> rat \<Rightarrow> finding" where
  "example_finding n v =
     \<lparr>f_recommendationIdentifier = n, f_checkName = n, f_checkId = n, f_status = ''warning'',
      f_description = [], f_recommendedAction = [], f_resourceCount = Num 1,
      f_estimatedMonthlySavings = Some (Num v), f_resources = []\<rparr>"

text \<open>
  The findings that enrichment yields from a list of summaries when the detail fetches
  give \<open>answers\<close>, one per summary in order: one finding for each summary whose fetch
  succeeds.
\<close>

fun enriched ::
  "(recommendation_summary \<Rightarrow> get_recommendation_output \<Rightarrow> finding) \<Rightarrow>
   recommendation_summary list \<Rightarrow> (error + get_recommendation_output) list \<Rightarrow> finding list" where
  "enriched mk [] answers = []"
| "enriched mk (i # items) [] = []"
| "enriched mk (i # items) (Inl e # answers) = enriched mk items answers"
| "enriched mk (i # items) (Inr d # answers) = mk i d # enriched mk items answers"

definition get_commands :: "recommendation_summary list \<Rightarrow> command list" where
  "get_commands items =
     map (\<lambda>i. GetRecommendationCommand \<lparr>gi_recommendationIdentifier = rs_arn i\<rparr>) items"

definition page_items :: "list_recommendations_output \<Rightarrow> recommendation_summary list" where
  "page_items p = (case recommendationSummaries p of None \<Rightarrow> [] | Some items \<Rightarrow> items)"

text \<open>The commands the cost loop sends while it reads the given pages, and where it stands after them.\<close>

fun cost_trace ::
  "list_recommendations_input \<Rightarrow> string option \<Rightarrow> list_recommendations_output list \<Rightarrow> command list" where
  "cost_trace input tok [] = []"
| "cost_trace input tok (p # ps) =
     ListRecommendationsCommand (with_token input tok) # get_commands (page_items p)
       @ cost_trace (with_token input tok) (lo_nextToken p) ps"

fun cost_after ::
  "list_recommendations_input \<Rightarrow> string option \<Rightarrow> list_recommendations_output list \<Rightarrow>
   list_recommendations_input \<times> string option" where
  "cost_after input tok [] = (input, tok)"
| "cost_after input tok (p # ps) = cost_after (with_token input tok) (lo_nextToken p) ps"

text \<open>Values for examples: a serializer standing in for \<open>JSON.stringify\<close>, a remote
  service with no answers, a summary with and one without aggregates, and a detail.\<close>

definition example_stringify :: "envelope \<Rightarrow> jsstring" where
  "example_stringify env =
     ascii (messageVersion env @ response_actionGroup (envelope_response env))"

definition no_answers :: remote where
  "no_answers = \<lparr>list_answers = [], get_answers = [], resource_answers = [], calls = []\<rparr>"

definition example_summary :: recommendation_summary where
  "example_summary =
     \<lparr>rs_arn = ''arn:1'', rs_name = ''Idle instances'', rs_id = ''c1'', rs_status = ''warning'',
      pillarSpecificAggregates =
        Some \<lparr>costOptimizing = Some \<lparr>co_estimatedMonthlySavings = Some 30\<rparr>\<rparr>,
      resourcesAggregates = Some \<lparr>errorCount = Some 2, warningCount = Some 3\<rparr>\<rparr>"

definition bare_summary :: recommendation_summary where
  "bare_summary =
     \<lparr>rs_arn = ''arn:2'', rs_name = ''Open ports'', rs_id = ''c2'', rs_status = ''warning'',
      pillarSpecificAggregates = None, resourcesAggregates = None\<rparr>"

definition example_detail :: get_recommendation_output where
  "example_detail =
     \<lparr>go_recommendation =
        Some \<lparr>rd_description = Some ''d'', rd_recommendedActions = None, rd_resources = None\<rparr>\<rparr>"

text \<open>
  The inputs the loops start from, the commands they send while reading given pages,
  and further values for examples.
\<close>

definition cost_input :: list_recommendations_input where
  "cost_input = \<lparr>li_maxResults = 200, li_pillar = ''cost_optimizing'', li_status = ''warning'',
     li_nextToken = None\<rparr>"

definition security_input :: list_recommendations_input where
  "security_input = \<lparr>li_maxResults = 200, li_pillar = ''security'', li_status = ''warning'',
     li_nextToken = None\<rparr>"

definition resource_input :: "string \<Rightarrow> list_resources_input" where
  "resource_input recommendationIdentifier =
     \<lparr>lr_maxResults = 200, lr_recommendationIdentifier = recommendationIdentifier,
      lr_nextToken = None\<rparr>"

fun security_trace :: "string option \<Rightarrow> list_recommendations_output list \<Rightarrow> command list" where
  "security_trace tok [] = []"
| "security_trace tok (p # ps) =
     ListRecommendationsCommand (with_token security_input tok) # get_commands (page_items p)
       @ security_trace (lo_nextToken p) ps"

definition resource_items :: "list_resources_output \<Rightarrow> resource_summary list" where
  "resource_items p = (case recommendationResourceSummaries p of None \<Rightarrow> [] | Some items \<Rightarrow> items)"

fun resource_trace ::
  "list_resources_input \<Rightarrow> string option \<Rightarrow> list_resources_output list \<Rightarrow> command list" where
  "resource_trace input tok [] = []"
| "resource_trace input tok (p # ps) =
     ListRecommendationResourcesCommand (with_resource_token input tok)
       # resource_trace (with_resource_token input tok) (lro_nextToken p) ps"

fun resource_after ::
  "list_resources_input \<Rightarrow> string option \<Rightarrow> list_resources_output list \<Rightarrow>
   list_resources_input \<times> string option" where
  "resource_after input tok [] = (input, tok)"
| "resource_after input tok (p # ps) = resource_after (with_resource_token input tok) (lro_nextToken p) ps"

fun list_calls :: "command list \<Rightarrow> list_recommendations_input list" where
  "list_calls [] = []"
| "list_calls (ListRecommendationsCommand input # cs) = input # list_calls cs"
| "list_calls (c # cs) = list_calls cs"

definition example_resource :: "string \<Rightarrow> resource_summary" where
  "example_resource n =
     \<lparr>src_id = n, src_arn = ''arn:r:'' @ n, src_awsResourceId = ''i-'' @ n,
      src_regionCode = ''eu-west-1'', src_status = ''warning'', src_metadata = [],
      src_lastUpdatedAt = ''2024-01-01'', src_exclusionStatus = ''included'',
      src_recommendationArn = ''arn:1''\<rparr>"

definition example_remote :: remote where
  "example_remote =
     \<lparr>list_answers =
        [Inr \<lparr>recommendationSummaries = Some [example_summary, bare_summary], lo_nextToken = Some ''t1''\<rparr>,
         Inr \<lparr>recommendationSummaries = Some [example_summary], lo_nextToken = None\<rparr>],
      get_answers = [Inr example_detail, Inl (Error ''throttled''), Inr example_detail],
      resource_answers =
        [Inr \<lparr>recommendationResourceSummaries = Some [example_resource ''a''], lro_nextToken = Some ''t1''\<rparr>,
         Inr \<lparr>recommendationResourceSummaries = Some [example_resource ''b''], lro_nextToken = Some []\<rparr>],
      calls = []\<rparr>"

definition failing_remote :: remote where
  "failing_remote =
     \<lparr>list_answers =
        [Inr \<lparr>recommendationSummaries = Some [example_summary], lo_nextToken = Some ''t1''\<rparr>,
         Inl (Error ''AccessDenied'')],
      get_answers = [Inr example_detail],
      resource_answers =
        [Inr \<lparr>recommendationResourceSummaries = Some [example_resource ''a''], lro_nextToken = Some ''t1''\<rparr>,
         Inl (Error ''Throttling'')],
      calls = []\<rparr>"

definition example_event :: event where
  "example_event =
     \<lparr>event_actionGroup = Some ''X'', event_function = Some ''Y'',
      event_parameters = Some [\<lparr>param_name = ''recommendationIdentifier'', param_value = Some ''arn:1''\<rparr>]\<rparr>"

definition one_page_remote :: remote where
  "one_page_remote = no_answers
     \<lparr>list_answers := [Inr \<lparr>recommendationSummaries = Some [bare_summary], lo_nextToken = None\<rparr>],
      get_answers := [Inr example_detail]\<rparr>"

definition anonymous_event :: event where
  "anonymous_event = \<lparr>event_actionGroup = None, event_function = None, event_parameters = None\<rparr>"

definition region_event :: event where
  "region_event =
     \<lparr>event_actionGroup = Some ''X'', event_function = Some ''Y'',
      event_parameters = Some [\<lparr>param_name = ''region'', param_value = Some ''eu-west-1''\<rparr>]\<rparr>"

definition empty_value_event :: event where
  "empty_value_event =
     \<lparr>event_actionGroup = Some ''X'', event_function = Some ''Y'',
      event_parameters = Some [\<lparr>param_name = ''recommendationIdentifier'', param_value = Some []\<rparr>]\<rparr>"

text \<open>
  Summaries with a name and a saving, and a remote service that returns four of them
  on one page with the savings 10, 30, 30 and 5.
\<close>

definition saving_summary :: "string \<Rightarrow> rat \<Rightarrow> recommendation_summary" where
  "saving_summary n v =
     \<lparr>rs_arn = n, rs_name = n, rs_id = n, rs_status = ''warning'',
      pillarSpecificAggregates =
        Some \<lparr>costOptimizing = Some \<lparr>co_estimatedMonthlySavings = Some v\<rparr>\<rparr>,
      resourcesAggregates = None\<rparr>"

definition savings_remote :: remote where
  "savings_remote =
     \<lparr>list_answers =
        [Inr \<lparr>recommendationSummaries =
                Some [saving_summary ''a'' 10, saving_summary ''b'' 30,
                      saving_summary ''c'' 30, saving_summary ''d'' 5],
              lo_nextToken = None\<rparr>],
      get_answers = [Inr example_detail, Inr example_detail, Inr example_detail, Inr example_detail],
      resource_answers = [],
      calls = []\<rparr>"

definition saving_finding :: "string \<Rightarrow> rat \<Rightarrow> finding" where
  "saving_finding n v = cost_finding (saving_summary n v) example_detail"

section \<open>Properties of the streaming\<close>

lemma write_slices_eq: "write_slices i chunk rs = rs @ map Write (slices_from i chunk)"
proof (induction i chunk rs rule: write_slices.induct)
  case (1 i chunk rs)
  show ?case
  proof (cases "i < length chunk")
    case True
    then show ?thesis
      using "1.IH" by (subst write_slices.simps, subst slices_from.simps) simp
  next
    case False
    then show ?thesis
      by (subst write_slices.simps, subst slices_from.simps) simp
  qed
qed

lemma concat_slices_from: "concat (slices_from i chunk) = drop i chunk"
proof (induction i chunk rule: slices_from.induct)
  case (1 i chunk)
  show ?case
  proof (cases "i < length chunk")
    case True
    have "concat (slices_from i chunk) =
        take CHUNK_SIZE (drop i chunk) @ drop (i + CHUNK_SIZE) chunk"
      using True "1.IH" by (subst slices_from.simps) (simp add: js_slice_def)
    also have "\<dots> = drop i chunk"
      by (metis add.commute append_take_drop_id drop_drop)
    finally show ?thesis .
  next
    case False
    then show ?thesis by (subst slices_from.simps) simp
  qed
qed

lemma length_slices_from: "c \<in> set (slices_from i chunk) \<Longrightarrow> length c \<le> CHUNK_SIZE"
proof (induction i chunk rule: slices_from.induct)
  case (1 i chunk)
  show ?case
  proof (cases "i < length chunk")
    case True
    with "1.prems" have "c = js_slice i (i + CHUNK_SIZE) chunk \<or> c \<in> set (slices_from (i + CHUNK_SIZE) chunk)"
      by (subst (asm) slices_from.simps) simp
    then show ?thesis
      using True "1.IH" by (auto simp: js_slice_def)
  next
    case False
    with "1.prems" show ?thesis by (subst (asm) slices_from.simps) simp
  qed
qed

lemma streamFunctionResponse_eq:
  "streamFunctionResponse json rs = rs @ map Write (chunks_of json) @ [End]"
  by (simp add: streamFunctionResponse_def Readable_from_def write_chunk_def chunks_of_def
      write_slices_eq)

lemma concat_chunks_of: "concat (chunks_of json) = json"
  by (simp add: chunks_of_def concat_slices_from)

lemma length_chunks_of: "c \<in> set (chunks_of json) \<Longrightarrow> length c \<le> CHUNK_SIZE"
  by (auto simp: chunks_of_def length_slices_from split: if_splits)

lemma unit_bytes_bounds: "1 \<le> unit_bytes u \<and> unit_bytes u \<le> 3"
  by (simp add: unit_bytes_def)

lemma byteLength_le: "byteLength s \<le> 3 * length s"
proof (induction s rule: byteLength.induct)
  case 1
  show ?case by simp
next
  case (2 u)
  show ?case using unit_bytes_bounds [of u] by simp
next
  case (3 u v r)
  show ?case using "3.IH" unit_bytes_bounds [of u] by (auto split: if_splits)
qed

lemma length_le_byteLength: "length s \<le> byteLength s"
proof (induction s rule: byteLength.induct)
  case 1
  show ?case by simp
next
  case (2 u)
  show ?case using unit_bytes_bounds [of u] by simp
next
  case (3 u v r)
  show ?case using "3.IH" unit_bytes_bounds [of u] by (auto split: if_splits)
qed

lemma not_high_surrogate_small: "u < 0x800 \<Longrightarrow> \<not> is_high_surrogate u"
  by (simp add: is_high_surrogate_def word_le_nat_alt word_less_nat_alt)

lemma byteLength_Cons_small:
  "u < 0x800 \<Longrightarrow> byteLength (u # r) = unit_bytes u + byteLength r"
  by (cases r) (simp_all add: not_high_surrogate_small)

lemma byteLength_ascii: "\<forall>u \<in> set s. u < 0x80 \<Longrightarrow> byteLength s = length s"
proof (induction s)
  case Nil
  show ?case by simp
next
  case (Cons u s)
  then have small: "u < 0x80" by simp
  then have "u < 0x800" by (rule less_trans) simp
  with Cons small show ?case
    by (simp add: byteLength_Cons_small unit_bytes_def)
qed

lemma byteLength_replicate_small:
  "u < 0x800 \<Longrightarrow> byteLength (replicate n u @ r) = n * unit_bytes u + byteLength r"
  by (induction n) (simp_all add: byteLength_Cons_small)

lemma set_chunks_of: "c \<in> set (chunks_of json) \<Longrightarrow> set c \<subseteq> set json"
proof -
  assume "c \<in> set (chunks_of json)"
  then have "set c \<subseteq> set (concat (chunks_of json))" by auto
  then show ?thesis by (simp add: concat_chunks_of)
qed

text \<open>
  The example of the specification: a payload of 60,000 code units is cut into chunks
  of 25,600, 25,600 and 8,800.
\<close>

lemma chunks_of_60000:
  "streamFunctionResponse (replicate 60000 x) [] =
     [Write (replicate 25600 x), Write (replicate 25600 x), Write (replicate 8800 x), End]"
  by (simp add: streamFunctionResponse_eq chunks_of_def CHUNK_SIZE_def slices_from.simps
      js_slice_def)

text \<open>
  What the routine guarantees, in the unit in which it measures. For every serialized
  response and every response stream, \<open>streamFunctionResponse\<close> adds to the stream
  the writes of a list of chunks and then one \<open>end\<close>, and nothing else: the chunks
  concatenated in the order written are the serialized response; no chunk is longer
  than \<open>CHUNK_SIZE\<close> = 25,600 UTF-16 code units, the unit of \<open>chunk.length\<close> and
  \<open>chunk.slice\<close>; hence no chunk is larger than 25,600 bytes when the serialization is
  pure ASCII, and none is larger than 76,800 bytes in general; a serialization of at
  most 25,600 code units, in particular one of at most 25,600 bytes, is written as
  exactly one chunk.
\<close>

theorem streamFunctionResponse_chunks:
  fixes json :: jsstring
  shows "\<exists>cs. streamFunctionResponse json rs = rs @ map Write cs @ [End]
           \<and> concat cs = json
           \<and> (\<forall>c \<in> set cs. length c \<le> CHUNK_SIZE)
           \<and> (\<forall>c \<in> set cs. byteLength c \<le> 3 * CHUNK_SIZE)
           \<and> ((\<forall>u \<in> set json. u < 0x80) \<longrightarrow> (\<forall>c \<in> set cs. byteLength c \<le> CHUNK_SIZE))
           \<and> (length json \<le> CHUNK_SIZE \<longrightarrow> cs = [json])
           \<and> (byteLength json \<le> CHUNK_SIZE \<longrightarrow> cs = [json])
           \<and> CHUNK_SIZE = 25600"
proof (intro exI [of _ "chunks_of json"] conjI)
  show "streamFunctionResponse json rs = rs @ map Write (chunks_of json) @ [End]"
    by (rule streamFunctionResponse_eq)
  show "concat (chunks_of json) = json"
    by (rule concat_chunks_of)
  show "\<forall>c \<in> set (chunks_of json). length c \<le> CHUNK_SIZE"
    by (simp add: length_chunks_of)
  show "\<forall>c \<in> set (chunks_of json). byteLength c \<le> 3 * CHUNK_SIZE"
  proof
    fix c assume "c \<in> set (chunks_of json)"
    then have "length c \<le> CHUNK_SIZE" by (rule length_chunks_of)
    with byteLength_le [of c] show "byteLength c \<le> 3 * CHUNK_SIZE" by simp
  qed
  show "(\<forall>u \<in> set json. u < 0x80) \<longrightarrow> (\<forall>c \<in> set (chunks_of json). byteLength c \<le> CHUNK_SIZE)"
  proof (intro impI ballI)
    fix c assume a: "\<forall>u \<in> set json. u < 0x80" and c: "c \<in> set (chunks_of json)"
    from c have "set c \<subseteq> set json" by (rule set_chunks_of)
    with a have "\<forall>u \<in> set c. u < 0x80" by blast
    then have "byteLength c = length c" by (rule byteLength_ascii)
    with length_chunks_of [OF c] show "byteLength c \<le> CHUNK_SIZE" by simp
  qed
  show one: "length json \<le> CHUNK_SIZE \<longrightarrow> chunks_of json = [json]"
    by (simp add: chunks_of_def)
  show "byteLength json \<le> CHUNK_SIZE \<longrightarrow> chunks_of json = [json]"
    using one length_le_byteLength [of json] by simp
  show "CHUNK_SIZE = 25600"
    by (simp add: CHUNK_SIZE_def)
qed

text \<open>The serialization \<open>{}\<close>, two ASCII code units, is written as one chunk.\<close>

theorem streamFunctionResponse_chunks_witness:
  "length (ascii ''{}'') \<le> CHUNK_SIZE
   \<and> byteLength (ascii ''{}'') \<le> CHUNK_SIZE
   \<and> list_all (\<lambda>u. u < 0x80) (ascii ''{}'')
   \<and> streamFunctionResponse (ascii ''{}'') [] = [Write (ascii ''{}''), End]
   \<and> list_all (\<lambda>c. byteLength c \<le> CHUNK_SIZE) [ascii ''{}'']"
proof -
  have small: "length (ascii ''{}'') \<le> CHUNK_SIZE"
    by (simp add: ascii_def CHUNK_SIZE_def)
  have bytes: "byteLength (ascii ''{}'') \<le> CHUNK_SIZE"
    by (simp add: ascii_def CHUNK_SIZE_def unit_bytes_def is_high_surrogate_def)
  have ascii: "\<forall>u \<in> set (ascii ''{}''). u < 0x80"
    by (simp add: ascii_def)
  from streamFunctionResponse_chunks [of "ascii ''{}''" "[]"] small ascii
  have "streamFunctionResponse (ascii ''{}'') [] = [Write (ascii ''{}''), End]
        \<and> (\<forall>c \<in> set [ascii ''{}'']. byteLength c \<le> CHUNK_SIZE)"
    by auto
  with small bytes ascii show ?thesis by (simp add: list_all_iff)
qed

text \<open>
  C1 states that no chunk exceeds the chunk size of 25,600 bytes. The routine bounds
  the number of code units of a chunk, not its bytes: the serialization of
  \<open>{"d":"\<dots>"}\<close> with 25,000 times the letter U+00E9 is 25,008 code units long, so
  it is written as one chunk, and that chunk is 50,008 bytes.
\<close>

theorem streamFunctionResponse_chunk_bytes:
  "streamFunctionResponse
     ([0x7B, 0x22, 0x64, 0x22, 0x3A, 0x22] @ replicate 25000 0xE9 @ [0x22, 0x7D] :: jsstring) []
   = [Write ([0x7B, 0x22, 0x64, 0x22, 0x3A, 0x22] @ replicate 25000 0xE9 @ [0x22, 0x7D]), End]
   \<and> byteLength ([0x7B, 0x22, 0x64, 0x22, 0x3A, 0x22] @ replicate 25000 0xE9 @ [0x22, 0x7D]) = 50008
   \<and> \<not> (50008 \<le> CHUNK_SIZE)"
proof (intro conjI)
  show "streamFunctionResponse
     ([0x7B, 0x22, 0x64, 0x22, 0x3A, 0x22] @ replicate 25000 0xE9 @ [0x22, 0x7D] :: jsstring) []
   = [Write ([0x7B, 0x22, 0x64, 0x22, 0x3A, 0x22] @ replicate 25000 0xE9 @ [0x22, 0x7D]), End]"
    by (simp add: streamFunctionResponse_eq chunks_of_def CHUNK_SIZE_def)
  show "byteLength ([0x7B, 0x22, 0x64, 0x22, 0x3A, 0x22] @ replicate 25000 0xE9 @ [0x22, 0x7D]) = 50008"
    by (simp add: byteLength_Cons_small byteLength_replicate_small unit_bytes_def
        is_high_surrogate_def)
  show "\<not> (50008 \<le> CHUNK_SIZE)"
    by (simp add: CHUNK_SIZE_def)
qed

text \<open>
  The cuts fall between code units, so a surrogate pair can be split between two
  chunks. Each half is then written as a lone surrogate, which UTF-8 encodes as
  U+FFFD: here the first chunk is 25,602 bytes, and the two chunks together are 25,607
  bytes where the serialization is 25,605.
\<close>

lemma cut_pair_chunks:
  "streamFunctionResponse
     ([0x7B, 0x22, 0x64, 0x22, 0x3A, 0x22] @ replicate 25593 0x61 @ [0xD83D, 0xDE00, 0x22, 0x7D] :: jsstring) []
   = [Write ([0x7B, 0x22, 0x64, 0x22, 0x3A, 0x22] @ replicate 25593 0x61 @ [0xD83D]),
      Write [0xDE00, 0x22, 0x7D], End]"
  by (simp add: streamFunctionResponse_eq chunks_of_def CHUNK_SIZE_def slices_from.simps
      js_slice_def)

lemma cut_pair_bytes:
  "byteLength ([0x7B, 0x22, 0x64, 0x22, 0x3A, 0x22] @ replicate 25593 0x61 @ [0xD83D, 0xDE00, 0x22, 0x7D]) = 25605
   \<and> byteLength ([0x7B, 0x22, 0x64, 0x22, 0x3A, 0x22] @ replicate 25593 0x61 @ [0xD83D]) = 25602
   \<and> byteLength [0xDE00, 0x22, 0x7D] = 5"
  by (simp add: byteLength_Cons_small byteLength_replicate_small unit_bytes_def
      is_high_surrogate_def is_low_surrogate_def)

section \<open>Properties of the rounding to a double\<close>

lemma pow2_powi: "pow2 k = 2 powi k"
  by (simp add: pow2_def power_int_def inverse_eq_divide power_one_over)

lemma pow2_pos: "0 < pow2 k"
  by (simp add: pow2_def)

lemma pow2_add: "pow2 (a + b) = pow2 a * pow2 b"
  by (simp add: pow2_powi power_int_add)

lemma pow2_mono: "a \<le> b \<Longrightarrow> pow2 a \<le> pow2 b"
  by (simp add: pow2_powi power_int_increasing)

lemma pow2_nat: "0 \<le> k \<Longrightarrow> pow2 k = of_int (2 ^ nat k)"
  by (simp add: pow2_def)

lemma round_half_even_int [simp]: "round_half_even (of_int j) = j"
  by (simp add: round_half_even_def)

lemma round_half_even_ge: "1 \<le> y \<Longrightarrow> 1 \<le> round_half_even y"
proof -
  assume "1 \<le> y"
  then have "1 \<le> \<lfloor>y\<rfloor>" by simp
  then show ?thesis by (auto simp: round_half_even_def Let_def)
qed

lemma round_half_even_le: "y \<le> 0 \<Longrightarrow> round_half_even y \<le> 0"
proof -
  assume y: "y \<le> 0"
  then have f: "\<lfloor>y\<rfloor> \<le> 0" by (simp add: floor_le_iff)
  show ?thesis
  proof (cases "\<lfloor>y\<rfloor> = 0")
    case True
    then have "0 \<le> y" by (simp add: floor_eq_iff)
    with y have "y = of_int 0" by simp
    then show ?thesis by (simp only: round_half_even_int)
  next
    case False
    with f have neg: "\<lfloor>y\<rfloor> < 0" by linarith
    show ?thesis using neg unfolding round_half_even_def Let_def by (simp only: split: if_splits) linarith
  qed
qed

lemma ilog2_lower: "0 < x \<Longrightarrow> pow2 (ilog2 x) \<le> x"
proof (cases "1 \<le> x")
  case True
  then have pos: "0 < \<lfloor>x\<rfloor>" by simp
  from bitlen_bounds [OF pos] have "2 ^ nat (bitlen \<lfloor>x\<rfloor> - 1) \<le> \<lfloor>x\<rfloor>" ..
  moreover from pos have "0 \<le> bitlen \<lfloor>x\<rfloor> - 1" by (auto simp: bitlen_alt_def)
  ultimately have "pow2 (bitlen \<lfloor>x\<rfloor> - 1) \<le> of_int \<lfloor>x\<rfloor>"
    by (simp add: pow2_nat of_int_le_iff [symmetric] del: of_int_le_iff)
  also have "\<dots> \<le> x" by simp
  finally show ?thesis using True by (simp add: ilog2_def)
next
  case False
  assume x: "0 < x"
  let ?n = "\<lceil>1 / x\<rceil>"
  let ?c = "bitlen (?n - 1)"
  from False x have "1 < 1 / x" by (simp add: field_simps)
  then have n: "1 < ?n" by (simp add: less_ceiling_iff)
  then have pos: "0 < ?n - 1" by simp
  from bitlen_bounds [OF pos] have "?n - 1 < 2 ^ nat ?c" ..
  then have "?n \<le> 2 ^ nat ?c" by simp
  then have "(of_int ?n :: rat) \<le> of_int (2 ^ nat ?c)" by (simp only: of_int_le_iff)
  moreover have "1 / x \<le> of_int ?n" by (rule le_of_int_ceiling)
  moreover have "(of_int (2 ^ nat ?c) :: rat) = 2 ^ nat ?c" by simp
  ultimately have "1 / x \<le> 2 ^ nat ?c" by (metis order_trans)
  with x have "1 / 2 ^ nat ?c \<le> x" by (simp add: field_simps)
  moreover have "0 \<le> ?c" by (rule bitlen_nonneg)
  ultimately have "pow2 (- ?c) \<le> x"
    by (cases "?c = 0") (simp_all add: pow2_def)
  with False show ?thesis by (simp add: ilog2_def)
qed

lemma round_double_not_NaN [simp]: "round_double x \<noteq> NaN"
  by (simp add: round_double_def Let_def)

lemma round_double_positive:
  assumes "pow2 (- 1074) \<le> x"
  shows "positive (round_double x)"
proof -
  from assms pow2_pos [of "- 1074"] have x: "0 < x" by simp
  then have ax: "\<bar>x\<bar> = x" by simp
  define k where "k = max (ilog2 x - 52) (- 1074)"
  have "pow2 k \<le> x"
  proof (cases "ilog2 x - 52 \<le> - 1074")
    case True
    then have "k = - 1074" by (simp add: k_def)
    with assms show ?thesis by simp
  next
    case False
    then have "k = ilog2 x - 52" using x by (simp add: k_def)
    then have "pow2 k \<le> pow2 (ilog2 x)" by (simp add: pow2_mono)
    also have "\<dots> \<le> x" using x by (rule ilog2_lower)
    finally show ?thesis .
  qed
  then have "1 \<le> x / pow2 k" using pow2_pos [of k] by (simp add: field_simps)
  then have "1 \<le> round_half_even (x / pow2 k)" by (rule round_half_even_ge)
  then have "(1::rat) \<le> of_int (round_half_even (x / pow2 k))" by simp
  then have "0 < of_int (round_half_even (x / pow2 k)) * pow2 k"
    using pow2_pos [of k] by simp
  moreover have "- pow2 1024 < 0" using pow2_pos [of 1024] by simp
  ultimately show ?thesis using x
    by (auto simp: round_double_def Let_def ax k_def [symmetric] positive_def)
qed

lemma round_double_not_positive:
  assumes "x \<le> 0"
  shows "\<not> positive (round_double x)"
proof (cases "x = 0")
  case True
  then show ?thesis by (simp add: round_double_def positive_def)
next
  case False
  define k where "k = max (ilog2 \<bar>x\<bar> - 52) (- 1074)"
  from assms have "x / pow2 k \<le> 0" using pow2_pos [of k] by (simp add: field_simps)
  then have "round_half_even (x / pow2 k) \<le> 0" by (rule round_half_even_le)
  then have "(of_int (round_half_even (x / pow2 k)) :: rat) \<le> 0" by simp
  then have "of_int (round_half_even (x / pow2 k)) * pow2 k \<le> 0"
    using pow2_pos [of k] by (simp add: mult_le_0_iff)
  moreover have "0 < pow2 1024" by (rule pow2_pos)
  ultimately show ?thesis using False
    by (auto simp: round_double_def Let_def k_def [symmetric] positive_def)
qed

lemma round_double_grid:
  assumes "round_double r = Num r"
  shows "\<exists>j. r = of_int j * pow2 (- 1074)"
proof (cases "r = 0")
  case True
  then have "r = of_int 0 * pow2 (- 1074)" by simp
  then show ?thesis ..
next
  case False
  define k where "k = max (ilog2 \<bar>r\<bar> - 52) (- 1074)"
  define m where "m = round_half_even (r / pow2 k)"
  from assms False have r: "r = of_int m * pow2 k"
    by (auto simp: round_double_def Let_def k_def [symmetric] m_def split: if_splits)
  have "0 \<le> k + 1074" by (simp add: k_def)
  have "pow2 k = pow2 ((k + 1074) + (- 1074))" by simp
  also have "\<dots> = pow2 (k + 1074) * pow2 (- 1074)" by (rule pow2_add)
  also have "pow2 (k + 1074) = of_int (2 ^ nat (k + 1074))"
    using \<open>0 \<le> k + 1074\<close> by (rule pow2_nat)
  finally have "r = of_int (m * 2 ^ nat (k + 1074)) * pow2 (- 1074)"
    using r by simp
  then show ?thesis ..
qed

lemma round_double_int:
  assumes "\<bar>n\<bar> \<le> 2 ^ 53"
  shows "round_double (of_int n) = Num (of_int n)"
proof (cases "n = 0")
  case True
  then show ?thesis by (simp add: round_double_def)
next
  case False
  then have pos: "0 < \<bar>n\<bar>" by simp
  define e where "e = bitlen \<bar>n\<bar> - 1"
  define k where "k = max (e - 52) (- 1074)"
  have il: "ilog2 \<bar>of_int n\<bar> = e"
  proof -
    have fl: "\<lfloor>\<bar>of_int n :: rat\<bar>\<rfloor> = \<bar>n\<bar>" by (metis of_int_abs floor_of_int)
    from pos have "1 \<le> \<bar>n\<bar>" by linarith
    then have "(1::rat) \<le> of_int \<bar>n\<bar>" by (simp only: of_int_1_le_iff)
    then have "(1::rat) \<le> \<bar>of_int n\<bar>" by (simp only: of_int_abs)
    then show ?thesis by (simp add: ilog2_def e_def fl)
  qed
  from bitlen_bounds [OF pos] have lo: "2 ^ nat e \<le> \<bar>n\<bar>" by (simp add: e_def)
  have e0: "0 \<le> e" using pos by (auto simp: e_def bitlen_alt_def)
  have e53: "e \<le> 53"
  proof (rule ccontr)
    assume "\<not> e \<le> 53"
    then have "54 \<le> nat e" by simp
    then have "(2::int) ^ 54 \<le> 2 ^ nat e" by (rule power_increasing) simp
    with lo assms show False by simp
  qed
  have "\<exists>j. (of_int n :: rat) / pow2 k = of_int j"
  proof (cases "k \<le> 0")
    case True
    then have "(of_int n :: rat) / pow2 k = of_int (n * 2 ^ nat (- k))"
      by (cases "k = 0") (simp_all add: pow2_def)
    then show ?thesis ..
  next
    case False
    with e53 have "k = 1" and "e = 53" by (simp_all add: k_def)
    with lo assms have "\<bar>n\<bar> = 2 ^ 53" by simp
    then have "n = 2 ^ 53 \<or> n = - (2 ^ 53)" by linarith
    then have "(of_int n :: rat) / pow2 k = of_int (n div 2)"
      using \<open>k = 1\<close> by (auto simp: pow2_def)
    then show ?thesis ..
  qed
  then obtain j where j: "(of_int n :: rat) / pow2 k = of_int j" ..
  then have undo: "of_int j * pow2 k = (of_int n :: rat)"
    using pow2_pos [of k] by (simp add: field_simps)
  have "\<bar>of_int n :: rat\<bar> \<le> 2 ^ 53"
    using assms by (metis of_int_abs of_int_le_iff of_int_numeral of_int_power)
  then have small: "(of_int n :: rat) < pow2 1024" "- pow2 1024 < (of_int n :: rat)"
    by (simp_all add: pow2_def abs_le_iff)
  from False il j undo small show ?thesis
    by (simp add: round_double_def Let_def k_def [symmetric])
qed

lemma round_double_nat: "n \<le> 2 ^ 53 \<Longrightarrow> round_double (of_nat n) = Num (of_nat n)"
proof -
  assume "n \<le> 2 ^ 53"
  then have "\<bar>int n\<bar> \<le> 2 ^ 53" by (simp add: of_nat_le_iff [of n "2 ^ 53", symmetric] del: of_nat_le_iff)
  from round_double_int [OF this] show ?thesis by simp
qed

text \<open>
  The sum of the doubles \<open>2^53\<close> and \<open>1\<close> is the double \<open>2^53\<close>: the exact sum lies
  halfway between two doubles and goes to the one with the even significand.
\<close>

lemma bitlen_big: "bitlen 9007199254740993 = 54"
  by (simp add: compute_bitlen)

lemma round_double_tie: "round_double 9007199254740993 = Num 9007199254740992"
proof -
  have "ilog2 \<bar>9007199254740993\<bar> = 53"
    by (simp add: ilog2_def bitlen_big)
  moreover have "\<lfloor>9007199254740993 / 2 :: rat\<rfloor> = 4503599627370496"
    by (rule floor_unique) simp_all
  then have "round_half_even (9007199254740993 / pow2 1) = 4503599627370496"
    by (simp add: round_half_even_def pow2_def Let_def)
  moreover have "(9007199254740992 :: rat) < pow2 1024" by (simp add: pow2_def)
  ultimately show ?thesis
    by (simp add: round_double_def Let_def) (simp add: pow2_def)
qed

lemma js_add_rounds: "js_add (Num (2 ^ 53)) (Num 1) = Num (2 ^ 53)"
  by (simp add: round_double_tie)

lemma js_add_not_NaN: "acc \<noteq> NaN \<Longrightarrow> js_add acc (Num b) \<noteq> NaN"
  by (cases acc) simp_all

lemma to_fixed2_not_NaN: "v \<noteq> NaN \<Longrightarrow> to_fixed2 v \<noteq> NaN"
  by (cases v) (simp_all add: to_fixed2_def)


text \<open>
  \<open>toFixed\<close> rounds the magnitude: \<open>(-0.125).toFixed(2)\<close> is \<open>-0.13\<close>, which
  \<open>Number\<close> reads as the double nearest to \<open>-13/100\<close>.
\<close>

lemma to_fixed2_negative_tie: "to_fixed2 (Num (- (1 / 8))) = round_double (- (13 / 100))"
proof -
  have "\<lfloor>13 :: rat\<rfloor> = 13" by (rule floor_unique) simp_all
  then show ?thesis by (simp add: to_fixed2_def)
qed

section \<open>Properties of the sort\<close>

lemma or_zero_savings:
  "numeric_savings f \<Longrightarrow> or_zero (f_estimatedMonthlySavings f) = Num (savings f)"
  by (auto simp: numeric_savings_def savings_def or_zero_def split: option.splits jsnum.splits)

lemma by_savings_round:
  "numeric_savings a \<Longrightarrow> numeric_savings b \<Longrightarrow>
   by_savings a b = round_double (savings b - savings a)"
  by (simp add: by_savings_def or_zero_savings)

text \<open>
  On doubles the sign of the rounded difference is the sign of the difference: two
  different doubles are at least \<open>2^(-1074)\<close> apart.
\<close>

lemma positive_by_savings:
  assumes "numeric_savings x" and "numeric_savings y"
    and "is_double (savings x)" and "is_double (savings y)"
  shows "positive (by_savings x y) \<longleftrightarrow> savings x < savings y"
proof (cases "savings x < savings y")
  case True
  from assms(3) obtain jx where jx: "savings x = of_int jx * pow2 (- 1074)"
    unfolding is_double_def by (blast dest: round_double_grid)
  from assms(4) obtain jy where jy: "savings y = of_int jy * pow2 (- 1074)"
    unfolding is_double_def by (blast dest: round_double_grid)
  from True jx jy pow2_pos [of "- 1074"] have "jx < jy" by simp
  then have "1 \<le> jy - jx" by simp
  then have "(1::rat) \<le> of_int (jy - jx)" by (simp only: of_int_1_le_iff)
  then have "1 * pow2 (- 1074) \<le> of_int (jy - jx) * pow2 (- 1074)"
    using pow2_pos [of "- 1074"] by (simp only: mult_le_cancel_right) simp
  then have "pow2 (- 1074) \<le> savings y - savings x"
    by (simp add: jx jy algebra_simps)
  then have "positive (round_double (savings y - savings x))"
    by (rule round_double_positive)
  with True assms(1,2) show ?thesis by (simp add: by_savings_round)
next
  case False
  then have "savings y - savings x \<le> 0" by simp
  then have "\<not> positive (round_double (savings y - savings x))"
    by (rule round_double_not_positive)
  with False assms(1,2) show ?thesis by (simp add: by_savings_round)
qed

lemma same_savings_not_positive:
  "f_estimatedMonthlySavings x = f_estimatedMonthlySavings y \<Longrightarrow> \<not> positive (by_savings x y)"
  by (cases "or_zero (f_estimatedMonthlySavings y)")
    (simp_all add: by_savings_def positive_def round_double_def)

lemma mset_insert_by: "mset (insert_by cmp x ys) = add_mset x (mset ys)"
  by (induction ys) simp_all

lemma mset_array_sort: "mset (array_sort cmp xs) = mset xs"
  by (induction xs) (simp_all add: array_sort_def mset_insert_by)

lemma set_insert_by: "set (insert_by cmp x ys) = insert x (set ys)"
  by (induction ys) auto

lemma set_array_sort: "set (array_sort cmp xs) = set xs"
  using mset_array_sort [of cmp xs] by (metis set_mset_mset)

lemma array_sort_Cons:
  "array_sort cmp (x # xs) = insert_by cmp x (array_sort cmp xs)"
  by (simp add: array_sort_def)

lemma sorted_insert_by:
  assumes "numeric_savings x \<and> is_double (savings x)"
    and "\<forall>y \<in> set ys. numeric_savings y \<and> is_double (savings y)"
    and "sorted_wrt (\<lambda>a b. savings b \<le> savings a) ys"
  shows "sorted_wrt (\<lambda>a b. savings b \<le> savings a) (insert_by by_savings x ys)"
  using assms(2,3)
proof (induction ys)
  case Nil
  show ?case by simp
next
  case (Cons y ys)
  from Cons.prems assms(1) have pos: "positive (by_savings x y) \<longleftrightarrow> savings x < savings y"
    by (simp add: positive_by_savings)
  show ?case
  proof (cases "positive (by_savings x y)")
    case True
    with pos have "savings x < savings y" by simp
    with Cons show ?thesis using True by (auto simp: set_insert_by)
  next
    case False
    with pos have "savings y \<le> savings x" by simp
    with Cons.prems show ?thesis using False by auto
  qed
qed

lemma sorted_array_sort:
  assumes "\<forall>x \<in> set xs. numeric_savings x \<and> is_double (savings x)"
  shows "sorted_wrt (\<lambda>a b. savings b \<le> savings a) (array_sort by_savings xs)"
  using assms
proof (induction xs)
  case Nil
  show ?case by (simp add: array_sort_def)
next
  case (Cons x xs)
  then have tail: "\<forall>y \<in> set (array_sort by_savings xs). numeric_savings y \<and> is_double (savings y)"
    by (simp add: set_array_sort)
  from Cons have "sorted_wrt (\<lambda>a b. savings b \<le> savings a) (array_sort by_savings xs)"
    by simp
  with Cons.prems tail show ?case
    by (simp add: array_sort_Cons sorted_insert_by)
qed

lemma filter_insert_by:
  "filter (\<lambda>f. f_estimatedMonthlySavings f = v) (insert_by by_savings x ys) =
   filter (\<lambda>f. f_estimatedMonthlySavings f = v) (x # ys)"
proof (induction ys)
  case Nil
  show ?case by simp
next
  case (Cons y ys)
  show ?case
  proof (cases "positive (by_savings x y)")
    case True
    then have "f_estimatedMonthlySavings x \<noteq> f_estimatedMonthlySavings y"
      using same_savings_not_positive [of x y] by blast
    with True Cons show ?thesis by auto
  next
    case False
    then show ?thesis by simp
  qed
qed

lemma filter_array_sort:
  "filter (\<lambda>f. f_estimatedMonthlySavings f = v) (array_sort by_savings xs) =
   filter (\<lambda>f. f_estimatedMonthlySavings f = v) xs"
proof (induction xs)
  case Nil
  show ?case by (simp add: array_sort_def)
next
  case (Cons x xs)
  then show ?case by (simp add: array_sort_Cons filter_insert_by)
qed

lemma savings_ge_iff:
  "numeric_savings a \<Longrightarrow> numeric_savings b \<Longrightarrow> savings_ge a b \<longleftrightarrow> savings b \<le> savings a"
  by (auto simp: numeric_savings_def savings_ge_def savings_def or_zero_def
      split: option.splits jsnum.splits)

section \<open>Runs against the scripted remote service\<close>

lemma enriched_Nil [simp]: "enriched mk items [] = []"
  by (cases items) simp_all

lemma enriched_comprehension:
  "enriched mk items answers = [mk i d. (i, Inr d) \<leftarrow> zip items answers]"
  by (induction mk items answers rule: enriched.induct) simp_all

lemma enriched_append:
  "enriched mk (xs @ ys) answers =
     enriched mk xs answers @ enriched mk ys (drop (length xs) answers)"
  by (induction mk xs answers rule: enriched.induct) simp_all

lemma scripted_get_Nil:
  "get_answers r = [] \<Longrightarrow>
   send_get scripted input r = (Inl no_answer, r\<lparr>calls := calls r @ [GetRecommendationCommand input]\<rparr>)"
  by (simp add: scripted_def scripted_get_def)

lemma scripted_get_Cons:
  "get_answers r = a # as \<Longrightarrow>
   send_get scripted input r =
     (a, r\<lparr>get_answers := as, calls := calls r @ [GetRecommendationCommand input]\<rparr>)"
  by (simp add: scripted_def scripted_get_def)

lemma scripted_list_Cons:
  "list_answers r = a # as \<Longrightarrow>
   send_list scripted input r =
     (a, r\<lparr>list_answers := as, calls := calls r @ [ListRecommendationsCommand input]\<rparr>)"
  by (simp add: scripted_def scripted_list_def)

lemma enrich_all_scripted:
  "enrich_all mk scripted items findings r =
     (findings @ enriched mk items (get_answers r),
      r\<lparr>get_answers := drop (length items) (get_answers r),
        calls := calls r @ get_commands items\<rparr>)"
proof (induction items arbitrary: findings r)
  case Nil
  show ?case by (simp add: get_commands_def)
next
  case (Cons i items)
  show ?case
  proof (cases "get_answers r")
    case Nil
    then show ?thesis
      by (simp add: scripted_get_Nil Cons.IH get_commands_def)
  next
    case (Cons a as)
    then show ?thesis
      by (cases a) (simp_all add: scripted_get_Cons Cons.IH get_commands_def)
  qed
qed

lemma cost_list_loop_more:
  assumes "list_answers r = Inr p # rest" and "recommendationSummaries p = Some items"
    and "truthy (lo_nextToken p)"
  shows "cost_list_loop scripted input tok findings r =
     cost_list_loop scripted (with_token input tok) (lo_nextToken p)
       (findings @ enriched cost_finding items (get_answers r))
       (r\<lparr>list_answers := rest,
          get_answers := drop (length items) (get_answers r),
          calls := calls r @ ListRecommendationsCommand (with_token input tok) # get_commands items\<rparr>)"
  using assms
  by (subst cost_list_loop.simps) (simp add: scripted_list_Cons enrich_all_scripted)

lemma cost_list_loop_last:
  assumes "list_answers r = Inr p # rest" and "recommendationSummaries p = Some items"
    and "\<not> truthy (lo_nextToken p)"
  shows "cost_list_loop scripted input tok findings r =
     Some (Inr (findings @ enriched cost_finding items (get_answers r)),
       r\<lparr>list_answers := rest,
          get_answers := drop (length items) (get_answers r),
          calls := calls r @ ListRecommendationsCommand (with_token input tok) # get_commands items\<rparr>)"
  using assms
  by (subst cost_list_loop.simps) (simp add: scripted_list_Cons enrich_all_scripted)

lemma cost_list_loop_error:
  assumes "list_answers r = Inl e # rest"
  shows "cost_list_loop scripted input tok findings r =
     Some (Inl e, r\<lparr>list_answers := rest,
          calls := calls r @ [ListRecommendationsCommand (with_token input tok)]\<rparr>)"
  using assms
  by (subst cost_list_loop.simps) (simp add: scripted_list_Cons)

lemma cost_list_loop_pages:
  assumes "list_answers r = map Inr pages @ rest"
    and "list_all (\<lambda>p. truthy (lo_nextToken p) \<and> recommendationSummaries p \<noteq> None) pages"
  shows "cost_list_loop scripted input tok findings r =
     cost_list_loop scripted (fst (cost_after input tok pages)) (snd (cost_after input tok pages))
       (findings @ enriched cost_finding (concat (map page_items pages)) (get_answers r))
       (r\<lparr>list_answers := rest,
          get_answers := drop (length (concat (map page_items pages))) (get_answers r),
          calls := calls r @ cost_trace input tok pages\<rparr>)"
  using assms
proof (induction pages arbitrary: input tok findings r)
  case Nil
  then have "rest = list_answers r" by simp
  then show ?case by simp
next
  case (Cons p pages)
  from Cons.prems obtain items where items: "recommendationSummaries p = Some items"
    and more: "truthy (lo_nextToken p)" by auto
  from Cons.prems have rest: "list_all (\<lambda>p. truthy (lo_nextToken p) \<and> recommendationSummaries p \<noteq> None) pages"
    by simp
  from Cons.prems have ans: "list_answers r = Inr p # (map Inr pages @ rest)" by simp
  show ?case
    by (subst cost_list_loop_more [OF ans items more], subst Cons.IH [OF _ rest])
      (simp_all add: page_items_def items enriched_append add.commute)
qed

lemma security_list_loop_more:
  assumes "list_answers r = Inr p # rest" and "truthy (lo_nextToken p)"
  shows "security_list_loop scripted tok findings r =
     security_list_loop scripted (lo_nextToken p)
       (findings @ enriched security_finding (page_items p) (get_answers r))
       (r\<lparr>list_answers := rest,
          get_answers := drop (length (page_items p)) (get_answers r),
          calls := calls r @ ListRecommendationsCommand (with_token security_input tok)
            # get_commands (page_items p)\<rparr>)"
  using assms
  by (subst security_list_loop.simps)
    (simp add: scripted_list_Cons enrich_all_scripted page_items_def security_input_def)

lemma security_list_loop_last:
  assumes "list_answers r = Inr p # rest" and "\<not> truthy (lo_nextToken p)"
  shows "security_list_loop scripted tok findings r =
     Some (Inr (findings @ enriched security_finding (page_items p) (get_answers r)),
       r\<lparr>list_answers := rest,
          get_answers := drop (length (page_items p)) (get_answers r),
          calls := calls r @ ListRecommendationsCommand (with_token security_input tok)
            # get_commands (page_items p)\<rparr>)"
  using assms
  by (subst security_list_loop.simps)
    (simp add: scripted_list_Cons enrich_all_scripted page_items_def security_input_def)

lemma security_list_loop_error:
  assumes "list_answers r = Inl e # rest"
  shows "security_list_loop scripted tok findings r =
     Some (Inl e, r\<lparr>list_answers := rest,
          calls := calls r @ [ListRecommendationsCommand (with_token security_input tok)]\<rparr>)"
  using assms
  by (subst security_list_loop.simps) (simp add: scripted_list_Cons security_input_def)

lemma security_list_loop_pages:
  assumes "list_answers r = map Inr pages @ rest"
    and "list_all (\<lambda>p. truthy (lo_nextToken p)) pages"
  shows "security_list_loop scripted tok findings r =
     security_list_loop scripted (if pages = [] then tok else lo_nextToken (last pages))
       (findings @ enriched security_finding (concat (map page_items pages)) (get_answers r))
       (r\<lparr>list_answers := rest,
          get_answers := drop (length (concat (map page_items pages))) (get_answers r),
          calls := calls r @ security_trace tok pages\<rparr>)"
  using assms
proof (induction pages arbitrary: tok findings r)
  case Nil
  then have "rest = list_answers r" by simp
  then show ?case by simp
next
  case (Cons p pages)
  from Cons.prems have more: "truthy (lo_nextToken p)"
    and rest: "list_all (\<lambda>p. truthy (lo_nextToken p)) pages"
    and ans: "list_answers r = Inr p # (map Inr pages @ rest)" by simp_all
  show ?case
    by (subst security_list_loop_more [OF ans more], subst Cons.IH [OF _ rest])
      (simp_all add: enriched_append add.commute)
qed

lemma scripted_list_resources_Cons:
  "resource_answers r = a # as \<Longrightarrow>
   send_list_resources scripted input r =
     (a, r\<lparr>resource_answers := as, calls := calls r @ [ListRecommendationResourcesCommand input]\<rparr>)"
  by (simp add: scripted_def scripted_list_resources_def)

lemma resource_list_loop_more:
  assumes "resource_answers r = Inr p # rest" and "truthy (lro_nextToken p)"
  shows "resource_list_loop scripted input tok resources r =
     resource_list_loop scripted (with_resource_token input tok) (lro_nextToken p)
       (resources @ map to_record (resource_items p))
       (r\<lparr>resource_answers := rest,
          calls := calls r @ [ListRecommendationResourcesCommand (with_resource_token input tok)]\<rparr>)"
  using assms
  by (subst resource_list_loop.simps)
    (simp add: scripted_list_resources_Cons resource_items_def Let_def split: option.splits)

lemma resource_list_loop_last:
  assumes "resource_answers r = Inr p # rest" and "\<not> truthy (lro_nextToken p)"
  shows "resource_list_loop scripted input tok resources r =
     Some (Inr (resources @ map to_record (resource_items p)),
       r\<lparr>resource_answers := rest,
          calls := calls r @ [ListRecommendationResourcesCommand (with_resource_token input tok)]\<rparr>)"
  using assms
  by (subst resource_list_loop.simps)
    (simp add: scripted_list_resources_Cons resource_items_def Let_def split: option.splits)

lemma resource_list_loop_error:
  assumes "resource_answers r = Inl e # rest"
  shows "resource_list_loop scripted input tok resources r =
     Some (Inl e, r\<lparr>resource_answers := rest,
          calls := calls r @ [ListRecommendationResourcesCommand (with_resource_token input tok)]\<rparr>)"
  using assms
  by (subst resource_list_loop.simps) (simp add: scripted_list_resources_Cons)

lemma resource_list_loop_pages:
  assumes "resource_answers r = map Inr pages @ rest"
    and "list_all (\<lambda>p. truthy (lro_nextToken p)) pages"
  shows "resource_list_loop scripted input tok resources r =
     resource_list_loop scripted (fst (resource_after input tok pages))
       (snd (resource_after input tok pages))
       (resources @ map to_record (concat (map resource_items pages)))
       (r\<lparr>resource_answers := rest, calls := calls r @ resource_trace input tok pages\<rparr>)"
  using assms
proof (induction pages arbitrary: input tok resources r)
  case Nil
  then have "rest = resource_answers r" by simp
  then show ?case by simp
next
  case (Cons p pages)
  from Cons.prems have more: "truthy (lro_nextToken p)"
    and rest: "list_all (\<lambda>p. truthy (lro_nextToken p)) pages"
    and ans: "resource_answers r = Inr p # (map Inr pages @ rest)" by simp_all
  show ?case
    by (subst resource_list_loop_more [OF ans more], subst Cons.IH [OF _ rest]) simp_all
qed

lemma resource_trace_snoc:
  "resource_trace input tok (ps @ [pl]) =
     resource_trace input tok ps @
     [ListRecommendationResourcesCommand
        (with_resource_token (fst (resource_after input tok ps)) (snd (resource_after input tok ps)))]"
  by (induction ps arbitrary: input tok) simp_all

lemma resource_trace_tokens:
  "list_all (\<lambda>p. truthy (lro_nextToken p)) ps \<Longrightarrow>
   resource_trace input tok (ps @ [pl]) =
     map ListRecommendationResourcesCommand
       (with_resource_token input tok # map (\<lambda>p. input\<lparr>lr_nextToken := lro_nextToken p\<rparr>) ps)"
proof (induction ps arbitrary: input tok)
  case Nil
  show ?case by simp
next
  case (Cons p ps)
  then have "truthy (lro_nextToken p)" and "list_all (\<lambda>p. truthy (lro_nextToken p)) ps"
    by simp_all
  with Cons.IH [of "with_resource_token input tok" "lro_nextToken p"] show ?case
    by (simp add: with_resource_token_def)
qed

lemma resource_list_loop_complete:
  assumes "resource_answers r = map Inr (ps @ [pl]) @ rest"
    and "list_all (\<lambda>p. truthy (lro_nextToken p)) ps"
    and "\<not> truthy (lro_nextToken pl)"
  shows "resource_list_loop scripted input tok resources r =
     Some (Inr (resources @ map to_record (concat (map resource_items (ps @ [pl])))),
       r\<lparr>resource_answers := rest, calls := calls r @ resource_trace input tok (ps @ [pl])\<rparr>)"
proof -
  from assms(1) have ans: "resource_answers r = map Inr ps @ Inr pl # rest" by simp
  show ?thesis
    by (subst resource_list_loop_pages [OF ans assms(2)], subst resource_list_loop_last [OF _ assms(3)])
      (simp_all add: resource_trace_snoc)
qed

lemma resource_list_loop_fails:
  assumes "resource_answers r = map Inr ps @ Inl e # rest"
    and "list_all (\<lambda>p. truthy (lro_nextToken p)) ps"
  shows "\<exists>r'. resource_list_loop scripted input tok resources r = Some (Inl e, r')"
  by (subst resource_list_loop_pages [OF assms], subst resource_list_loop_error) simp_all

lemma cost_trace_snoc:
  "cost_trace input tok (ps @ [pl]) =
     cost_trace input tok ps @
     ListRecommendationsCommand
        (with_token (fst (cost_after input tok ps)) (snd (cost_after input tok ps)))
      # get_commands (page_items pl)"
  by (induction ps arbitrary: input tok) simp_all

lemma list_calls_append: "list_calls (xs @ ys) = list_calls xs @ list_calls ys"
  by (induction xs rule: list_calls.induct) simp_all

lemma list_calls_get_commands: "list_calls (get_commands items) = []"
  by (induction items) (simp_all add: get_commands_def)

lemma list_calls_cost_trace:
  "list_all (\<lambda>p. truthy (lo_nextToken p)) ps \<Longrightarrow>
   list_calls (cost_trace input tok (ps @ [pl])) =
     with_token input tok # map (\<lambda>p. input\<lparr>li_nextToken := lo_nextToken p\<rparr>) ps"
proof (induction ps arbitrary: input tok)
  case Nil
  show ?case by (simp add: list_calls_get_commands)
next
  case (Cons p ps)
  then have "truthy (lo_nextToken p)" and "list_all (\<lambda>p. truthy (lo_nextToken p)) ps"
    by simp_all
  with Cons.IH [of "with_token input tok" "lo_nextToken p"] show ?case
    by (simp add: with_token_def list_calls_append list_calls_get_commands)
qed

lemma cost_list_loop_complete:
  assumes "list_answers r = map Inr (ps @ [pl]) @ rest"
    and "list_all (\<lambda>p. truthy (lo_nextToken p) \<and> recommendationSummaries p \<noteq> None) ps"
    and "\<not> truthy (lo_nextToken pl)" and "recommendationSummaries pl \<noteq> None"
  shows "cost_list_loop scripted input tok findings r =
     Some (Inr (findings @ enriched cost_finding (concat (map page_items (ps @ [pl]))) (get_answers r)),
       r\<lparr>list_answers := rest,
         get_answers := drop (length (concat (map page_items (ps @ [pl])))) (get_answers r),
         calls := calls r @ cost_trace input tok (ps @ [pl])\<rparr>)"
proof -
  from assms(1) have ans: "list_answers r = map Inr ps @ Inr pl # rest" by simp
  from assms(4) obtain items where items: "recommendationSummaries pl = Some items" by auto
  show ?thesis
    by (subst cost_list_loop_pages [OF ans assms(2)], subst cost_list_loop_last [OF _ items assms(3)])
      (simp_all add: cost_trace_snoc enriched_append page_items_def items add.commute)
qed

lemma cost_list_loop_fails:
  assumes "list_answers r = map Inr ps @ Inl e # rest"
    and "list_all (\<lambda>p. truthy (lo_nextToken p) \<and> recommendationSummaries p \<noteq> None) ps"
  shows "\<exists>r'. cost_list_loop scripted input tok findings r = Some (Inl e, r')"
  by (subst cost_list_loop_pages [OF assms], subst cost_list_loop_error) simp_all

lemma security_list_loop_complete:
  assumes "list_answers r = map Inr (ps @ [pl]) @ rest"
    and "list_all (\<lambda>p. truthy (lo_nextToken p)) ps"
    and "\<not> truthy (lo_nextToken pl)"
  shows "\<exists>r'. security_list_loop scripted tok findings r =
     Some (Inr (findings @ enriched security_finding (concat (map page_items (ps @ [pl]))) (get_answers r)), r')"
proof -
  from assms(1) have ans: "list_answers r = map Inr ps @ Inr pl # rest" by simp
  show ?thesis
    by (subst security_list_loop_pages [OF ans assms(2)], subst security_list_loop_last [OF _ assms(3)])
      (simp_all add: enriched_append)
qed

lemma security_list_loop_fails:
  assumes "list_answers r = map Inr ps @ Inl e # rest"
    and "list_all (\<lambda>p. truthy (lo_nextToken p)) ps"
  shows "\<exists>r'. security_list_loop scripted tok findings r = Some (Inl e, r')"
  by (subst security_list_loop_pages [OF assms], subst security_list_loop_error) simp_all

section \<open>The handlers on the outcome of the pagination\<close>

lemma cost_handler_success:
  assumes "get_trusted_advisor_findings client s = Some (Inr findings, s')"
  shows "cost_handler stringify now client event rs s =
     Some (function_response event (ChecksBody
        \<lparr>checks_summary =
           \<lparr>totalFindings = length findings,
            totalPotentialSavings = Some (to_fixed2 (total_savings findings)),
            checks_lastUpdated = now\<rparr>,
         checks_findings = findings\<rparr>),
       streamFunctionResponse (stringify (function_response event (ChecksBody
        \<lparr>checks_summary =
           \<lparr>totalFindings = length findings,
            totalPotentialSavings = Some (to_fixed2 (total_savings findings)),
            checks_lastUpdated = now\<rparr>,
         checks_findings = findings\<rparr>))) (rs @ [SetContentType ''application/json'']), s')"
  using assms by (simp add: cost_handler_def Let_def)

lemma cost_handler_error:
  assumes "get_trusted_advisor_findings client s = Some (Inl e, s')"
  shows "cost_handler stringify now client event rs s =
     Some (error_function_response event e,
       streamFunctionResponse (stringify (error_function_response event e))
         (rs @ [SetContentType ''application/json'']), s')"
  using assms by (simp add: cost_handler_def Let_def)

lemma security_handler_success:
  assumes "get_security_findings client s = Some (Inr findings, s')"
  shows "security_handler stringify now client event rs s =
     Some (function_response event (ChecksBody
        \<lparr>checks_summary =
           \<lparr>totalFindings = length findings, totalPotentialSavings = None,
            checks_lastUpdated = now\<rparr>,
         checks_findings = findings\<rparr>),
       streamFunctionResponse (stringify (function_response event (ChecksBody
        \<lparr>checks_summary =
           \<lparr>totalFindings = length findings, totalPotentialSavings = None,
            checks_lastUpdated = now\<rparr>,
         checks_findings = findings\<rparr>))) (rs @ [SetContentType ''application/json'']), s')"
  using assms by (simp add: security_handler_def Let_def)

lemma security_handler_error:
  assumes "get_security_findings client s = Some (Inl e, s')"
  shows "security_handler stringify now client event rs s =
     Some (error_function_response event e,
       streamFunctionResponse (stringify (error_function_response event e))
         (rs @ [SetContentType ''application/json'']), s')"
  using assms by (simp add: security_handler_def Let_def)

lemma resource_handler_error:
  assumes "truthy (find_recommendationIdentifier event)"
    and "get_resource_list client (or_empty (find_recommendationIdentifier event)) s = Some (Inl e, s')"
  shows "resource_handler stringify now client event rs s =
     Some (error_function_response event e,
       streamFunctionResponse (stringify (error_function_response event e))
         (rs @ [SetContentType ''application/json'']), s')"
  using assms by (simp add: resource_handler_def Let_def)

lemma resource_handler_success:
  assumes "truthy (find_recommendationIdentifier event)"
    and "get_resource_list client (or_empty (find_recommendationIdentifier event)) s = Some (Inr resources, s')"
  shows "resource_handler stringify now client event rs s =
     Some (function_response event (ResourcesBody
        \<lparr>resources_summary = \<lparr>totalResources = length resources, resources_lastUpdated = now\<rparr>,
         resources_resources = resources\<rparr>),
       streamFunctionResponse (stringify (function_response event (ResourcesBody
        \<lparr>resources_summary = \<lparr>totalResources = length resources, resources_lastUpdated = now\<rparr>,
         resources_resources = resources\<rparr>))) (rs @ [SetContentType ''application/json'']), s')"
  using assms by (simp add: resource_handler_def Let_def)

lemma example_security_run:
  "\<exists>r'. get_security_findings scripted example_remote =
     Some (Inr [security_finding example_summary example_detail,
                security_finding example_summary example_detail], r')"
proof -
  let ?q1 = "\<lparr>recommendationSummaries = Some [example_summary, bare_summary], lo_nextToken = Some ''t1''\<rparr>"
  let ?q2 = "\<lparr>recommendationSummaries = Some [example_summary], lo_nextToken = None\<rparr>"
  have h1: "list_answers example_remote = map Inr ([?q1] @ [?q2]) @ []"
    by (simp add: example_remote_def)
  have h2: "list_all (\<lambda>q. truthy (lo_nextToken q)) [?q1]" and h3: "\<not> truthy (lo_nextToken ?q2)"
    by (simp_all add: truthy_def)
  have gets: "get_answers example_remote =
      [Inr example_detail, Inl (Error ''throttled''), Inr example_detail]"
    by (simp add: example_remote_def)
  from security_list_loop_complete [OF h1 h2 h3, of None "[]"] gets show ?thesis
    by (simp add: get_security_findings_def page_items_def)
qed

section \<open>Properties of findings\<close>

text \<open>
  C8. A finding built by the cost or by the security provider from a summary whose
  \<open>resourcesAggregates\<close> carries the numbers \<open>errorCount\<close> and \<open>warningCount\<close> has
  as \<open>resourceCount\<close> their sum as JavaScript computes it; for counts (natural
  numbers) whose sum is at most \<open>2^53\<close> that is exactly \<open>errorCount + warningCount\<close>.
  A summary without aggregates gives the finding the count \<open>NaN\<close>, and the
  construction completes all the same: for every summary, whatever its aggregates, a
  successful detail fetch makes the enrichment push exactly one finding.
\<close>

theorem resourceCount_sum:
  "(resourcesAggregates rec = Some agg \<and> errorCount agg = Some e \<and> warningCount agg = Some w \<longrightarrow>
      f_resourceCount (cost_finding rec d) = js_add (Num e) (Num w)
      \<and> f_resourceCount (security_finding rec d) = js_add (Num e) (Num w))
   \<and> (resourcesAggregates rec = Some agg \<and> errorCount agg = Some (of_nat m)
        \<and> warningCount agg = Some (of_nat n) \<and> m + n \<le> 2 ^ 53 \<longrightarrow>
      f_resourceCount (cost_finding rec d) = Num (of_nat m + of_nat n)
      \<and> f_resourceCount (security_finding rec d) = Num (of_nat m + of_nat n))
   \<and> (resourcesAggregates rec = None \<longrightarrow>
      f_resourceCount (cost_finding rec d) = NaN \<and> f_resourceCount (security_finding rec d) = NaN)
   \<and> (send_get client \<lparr>gi_recommendationIdentifier = rs_arn rec\<rparr> s = (Inr d, s') \<longrightarrow>
      enrich_all cost_finding client [rec] findings s = (findings @ [cost_finding rec d], s')
      \<and> enrich_all security_finding client [rec] findings s = (findings @ [security_finding rec d], s'))"
proof (intro conjI impI)
  assume a: "resourcesAggregates rec = Some agg \<and> errorCount agg = Some (of_nat m)
        \<and> warningCount agg = Some (of_nat n) \<and> m + n \<le> 2 ^ 53"
  then have "m + n \<le> 2 ^ 53" by simp
  then have "round_double (of_nat (m + n)) = Num (of_nat (m + n))"
    by (rule round_double_nat)
  then have "round_double (of_nat m + of_nat n) = Num (of_nat m + of_nat n)"
    by (simp only: of_nat_add)
  then have sum: "js_add (Num (of_nat m)) (Num (of_nat n)) = Num (of_nat m + of_nat n)"
    by simp
  from a sum show "f_resourceCount (cost_finding rec d) = Num (of_nat m + of_nat n)"
    by (simp add: cost_finding_def to_number_def Let_def)
  from a sum show "f_resourceCount (security_finding rec d) = Num (of_nat m + of_nat n)"
    by (simp add: security_finding_def to_number_def Let_def)
qed (simp_all add: cost_finding_def security_finding_def to_number_def Let_def)

text \<open>
  A summary with counts 2 and 3 gives the count 5; a summary without aggregates gives
  \<open>NaN\<close> and is still pushed.
\<close>

theorem resourceCount_sum_witness:
  "resourcesAggregates example_summary = Some \<lparr>errorCount = Some 2, warningCount = Some 3\<rparr>
   \<and> f_resourceCount (cost_finding example_summary example_detail) = Num 5
   \<and> f_resourceCount (security_finding example_summary example_detail) = Num 5
   \<and> resourcesAggregates bare_summary = None
   \<and> f_resourceCount (cost_finding bare_summary example_detail) = NaN
   \<and> send_get scripted \<lparr>gi_recommendationIdentifier = rs_arn bare_summary\<rparr>
        (no_answers\<lparr>get_answers := [Inr example_detail]\<rparr>)
      = (Inr example_detail,
         no_answers\<lparr>calls := [GetRecommendationCommand \<lparr>gi_recommendationIdentifier = ''arn:2''\<rparr>]\<rparr>)
   \<and> enrich_all cost_finding scripted [bare_summary] []
        (no_answers\<lparr>get_answers := [Inr example_detail]\<rparr>)
      = ([cost_finding bare_summary example_detail],
         no_answers\<lparr>calls := [GetRecommendationCommand \<lparr>gi_recommendationIdentifier = ''arn:2''\<rparr>]\<rparr>)"
proof -
  have agg: "resourcesAggregates example_summary = Some \<lparr>errorCount = Some 2, warningCount = Some 3\<rparr>"
    by (simp add: example_summary_def)
  have counts: "errorCount \<lparr>errorCount = Some 2, warningCount = Some 3\<rparr> = Some (of_nat 2)"
      "warningCount \<lparr>errorCount = Some 2, warningCount = Some 3\<rparr> = Some (of_nat 3)"
      "(2::nat) + 3 \<le> 2 ^ 53"
    by simp_all
  have none: "resourcesAggregates bare_summary = None"
    by (simp add: bare_summary_def)
  have get: "send_get scripted \<lparr>gi_recommendationIdentifier = rs_arn bare_summary\<rparr>
        (no_answers\<lparr>get_answers := [Inr example_detail]\<rparr>)
      = (Inr example_detail,
         no_answers\<lparr>calls := [GetRecommendationCommand \<lparr>gi_recommendationIdentifier = ''arn:2''\<rparr>]\<rparr>)"
    by (simp add: scripted_def scripted_get_def no_answers_def bare_summary_def)
  from resourceCount_sum [of example_summary "\<lparr>errorCount = Some 2, warningCount = Some 3\<rparr>" 2 3
      example_detail 2 3 scripted no_answers no_answers "[]", THEN conjunct2, THEN conjunct1]
    agg counts
  have one: "f_resourceCount (cost_finding example_summary example_detail) = Num 5
    \<and> f_resourceCount (security_finding example_summary example_detail) = Num 5"
    by simp
  from resourceCount_sum [of bare_summary undefined 0 0 example_detail 0 0 scripted
      "no_answers\<lparr>get_answers := [Inr example_detail]\<rparr>"
      "no_answers\<lparr>calls := [GetRecommendationCommand \<lparr>gi_recommendationIdentifier = ''arn:2''\<rparr>]\<rparr>" "[]"]
    none get
  have two: "f_resourceCount (cost_finding bare_summary example_detail) = NaN
    \<and> enrich_all cost_finding scripted [bare_summary] []
        (no_answers\<lparr>get_answers := [Inr example_detail]\<rparr>)
      = ([cost_finding bare_summary example_detail],
         no_answers\<lparr>calls := [GetRecommendationCommand \<lparr>gi_recommendationIdentifier = ''arn:2''\<rparr>]\<rparr>)"
    by simp
  from agg none get one two show ?thesis by simp
qed

lemma cost_finding_numeric: "numeric_savings (cost_finding rec d)"
  by (simp add: numeric_savings_def cost_finding_def or_zero_def Let_def split: option.splits)

lemma enrich_all_numeric:
  "\<forall>f \<in> set findings. numeric_savings f \<Longrightarrow>
   \<forall>f \<in> set (fst (enrich_all cost_finding client items findings s)). numeric_savings f"
proof (induction items arbitrary: findings s)
  case Nil
  then show ?case by simp
next
  case (Cons i items)
  show ?case
  proof (cases "send_get client \<lparr>gi_recommendationIdentifier = rs_arn i\<rparr> s")
    case (Pair a s')
    show ?thesis
    proof (cases a)
      case (Inl e)
      with Pair Cons show ?thesis by simp
    next
      case (Inr d)
      from Cons.prems have "\<forall>f \<in> set (findings @ [cost_finding i d]). numeric_savings f"
        by (simp add: cost_finding_numeric)
      from Cons.IH [OF this] Pair Inr show ?thesis by simp
    qed
  qed
qed

lemma cost_list_loop_numeric:
  assumes run: "cost_list_loop client input tok findings s = Some y"
  shows "(\<forall>f \<in> set findings. numeric_savings f) \<longrightarrow>
    (case fst y of Inl e \<Rightarrow> True | Inr result \<Rightarrow> \<forall>f \<in> set result. numeric_savings f)"
proof (rule cost_list_loop.raw_induct
    [where P = "\<lambda>client input tok findings s y. (\<forall>f \<in> set findings. numeric_savings f) \<longrightarrow>
      (case fst y of Inl e \<Rightarrow> True | Inr result \<Rightarrow> \<forall>f \<in> set result. numeric_savings f)",
     OF _ run], goal_cases)
  case (1 loop client input tok findings s y)
  note IH = "1"(1) and body = "1"(2)
  show ?case
  proof
    assume num0: "\<forall>f \<in> set findings. numeric_savings f"
    show "case fst y of Inl e \<Rightarrow> True | Inr result \<Rightarrow> \<forall>f \<in> set result. numeric_savings f"
    proof (cases "send_list client (with_token input tok) s")
      case (Pair a s1)
      show ?thesis
      proof (cases a)
        case (Inl e)
        with Pair body show ?thesis by auto
      next
        case (Inr response)
        show ?thesis
        proof (cases "recommendationSummaries response")
          case None
          with Pair Inr body show ?thesis by auto
        next
          case (Some summaries)
          obtain findings' s2 where
            en: "enrich_all cost_finding client summaries findings s1 = (findings', s2)"
            by (cases "enrich_all cost_finding client summaries findings s1")
          from enrich_all_numeric [OF num0, of client summaries s1] en
          have num: "\<forall>f \<in> set findings'. numeric_savings f" by simp
          show ?thesis
          proof (cases "truthy (lo_nextToken response)")
            case True
            with Pair Inr Some en body
            have "loop client (with_token input tok) (lo_nextToken response) findings' s2 = Some y"
              by simp
            from IH [OF this] num show ?thesis by simp
          next
            case False
            with Pair Inr Some en body have "fst y = Inr findings'" by auto
            with num show ?thesis by simp
          qed
        qed
      qed
    qed
  qed
qed

lemma total_savings_not_NaN:
  assumes "\<forall>f \<in> set findings. numeric_savings f"
  shows "total_savings findings \<noteq> NaN"
proof -
  have "acc \<noteq> NaN \<Longrightarrow> \<forall>f \<in> set fs. numeric_savings f \<Longrightarrow>
      foldl (\<lambda>sum finding. js_add sum (or_zero (f_estimatedMonthlySavings finding))) acc fs \<noteq> NaN"
    for acc fs
    by (induction fs arbitrary: acc) (simp_all add: or_zero_savings js_add_not_NaN)
  from this [of "Num 0" findings] assms show ?thesis by (simp add: total_savings_def)
qed

text \<open>
  C9. Every finding that the cost provider returns has a number as
  \<open>estimatedMonthlySavings\<close>: the object pushed always carries a finite number, and
  carries \<open>0\<close> when the summary has no cost aggregates. Hence the comparator of the
  sort yields, on any two of the findings, the rounded difference of their savings,
  and the sum of the savings and its rounding to two decimals are numbers: none of
  them is ever \<open>NaN\<close>.
\<close>

theorem cost_findings_numeric_savings:
  assumes "get_trusted_advisor_findings client s = Some (Inr findings, s')"
  shows "(\<forall>f \<in> set findings. f_estimatedMonthlySavings f = Some (Num (savings f)))
    \<and> (\<forall>a \<in> set findings. \<forall>b \<in> set findings.
          by_savings a b = round_double (savings b - savings a) \<and> by_savings a b \<noteq> NaN)
    \<and> total_savings findings \<noteq> NaN
    \<and> to_fixed2 (total_savings findings) \<noteq> NaN
    \<and> (\<exists>r. f_estimatedMonthlySavings (cost_finding rec d) = Some (Num r))
    \<and> (Option.bind (Option.bind (pillarSpecificAggregates rec) costOptimizing)
          co_estimatedMonthlySavings = None \<longrightarrow>
        f_estimatedMonthlySavings (cost_finding rec d) = Some (Num 0))"
proof (intro conjI)
  from assms obtain acc where
    loop: "cost_list_loop client
       \<lparr>li_maxResults = 200, li_pillar = ''cost_optimizing'', li_status = ''warning'',
        li_nextToken = None\<rparr> None [] s = Some (Inr acc, s')"
    and sorted: "findings = array_sort by_savings acc"
    by (auto simp: get_trusted_advisor_findings_def split: option.splits sum.splits)
  from cost_list_loop_numeric [OF loop] have "\<forall>f \<in> set acc. numeric_savings f" by simp
  with sorted have num: "\<forall>f \<in> set findings. numeric_savings f" by (simp add: set_array_sort)
  show "\<forall>f \<in> set findings. f_estimatedMonthlySavings f = Some (Num (savings f))"
  proof
    fix f assume "f \<in> set findings"
    with num have "numeric_savings f" by simp
    then show "f_estimatedMonthlySavings f = Some (Num (savings f))"
      by (auto simp: numeric_savings_def savings_def or_zero_def split: option.splits jsnum.splits)
  qed
  show "\<forall>a \<in> set findings. \<forall>b \<in> set findings.
          by_savings a b = round_double (savings b - savings a) \<and> by_savings a b \<noteq> NaN"
    using num by (simp add: by_savings_round)
  from num show "total_savings findings \<noteq> NaN"
    by (rule total_savings_not_NaN)
  then show "to_fixed2 (total_savings findings) \<noteq> NaN"
    by (rule to_fixed2_not_NaN)
  show "\<exists>r. f_estimatedMonthlySavings (cost_finding rec d) = Some (Num r)"
    using cost_finding_numeric [of rec d]
    by (auto simp: numeric_savings_def split: option.splits jsnum.splits)
  show "Option.bind (Option.bind (pillarSpecificAggregates rec) costOptimizing)
          co_estimatedMonthlySavings = None \<longrightarrow>
        f_estimatedMonthlySavings (cost_finding rec d) = Some (Num 0)"
    by (simp add: cost_finding_def Let_def or_zero_def)
qed

text \<open>One page with one summary that has no aggregates: the finding's saving is \<open>0\<close>.\<close>

theorem cost_findings_numeric_savings_witness:
  "map_option fst (get_trusted_advisor_findings scripted one_page_remote)
     = Some (Inr [cost_finding bare_summary example_detail])
   \<and> f_estimatedMonthlySavings (cost_finding bare_summary example_detail) = Some (Num 0)
   \<and> by_savings (cost_finding bare_summary example_detail) (cost_finding bare_summary example_detail) = Num 0
   \<and> total_savings [cost_finding bare_summary example_detail] \<noteq> NaN"
proof -
  have "list_answers one_page_remote =
      Inr \<lparr>recommendationSummaries = Some [bare_summary], lo_nextToken = None\<rparr> # []"
    by (simp add: one_page_remote_def no_answers_def)
  from cost_list_loop_last [OF this, of "[bare_summary]"]
  obtain r' where loop: "cost_list_loop scripted
       \<lparr>li_maxResults = 200, li_pillar = ''cost_optimizing'', li_status = ''warning'',
        li_nextToken = None\<rparr> None [] one_page_remote
       = Some (Inr [cost_finding bare_summary example_detail], r')"
    by (simp add: truthy_def one_page_remote_def no_answers_def)
  then have run: "get_trusted_advisor_findings scripted one_page_remote
      = Some (Inr [cost_finding bare_summary example_detail], r')"
    by (simp add: get_trusted_advisor_findings_def array_sort_def)
  have omitted: "Option.bind (Option.bind (pillarSpecificAggregates bare_summary) costOptimizing)
      co_estimatedMonthlySavings = None"
    by (simp add: bare_summary_def)
  have zero: "round_double 0 = Num 0"
    by (simp add: round_double_def)
  from cost_findings_numeric_savings [OF run, of bare_summary example_detail] omitted zero
  have "f_estimatedMonthlySavings (cost_finding bare_summary example_detail) = Some (Num 0)
    \<and> by_savings (cost_finding bare_summary example_detail) (cost_finding bare_summary example_detail) = Num 0
    \<and> total_savings [cost_finding bare_summary example_detail] \<noteq> NaN"
    by auto
  with run show ?thesis by simp
qed

section \<open>The order of the cost findings\<close>

text \<open>
  C5. Whenever the cost provider returns findings (their savings being doubles, as
  all numbers received are), they are in non-increasing order of
  \<open>estimatedMonthlySavings\<close>; they are a permutation of the findings in their
  arrival order, the order in which the loop pushed them; the sort is stable: for
  every value, the findings with that saving stand in the result as they arrived;
  and the handler puts the findings into the envelope in this order.
\<close>

theorem sort_by_savings:
  assumes "get_trusted_advisor_findings client s = Some (Inr findings, s')"
    and "\<forall>f \<in> set findings. is_double (savings f)"
  shows "sorted_wrt savings_ge findings
    \<and> (\<exists>arrival. cost_list_loop client cost_input None [] s = Some (Inr arrival, s')
          \<and> mset findings = mset arrival
          \<and> (\<forall>v. filter (\<lambda>f. f_estimatedMonthlySavings f = v) findings =
                filter (\<lambda>f. f_estimatedMonthlySavings f = v) arrival))
    \<and> (\<exists>env rs' c. cost_handler stringify now client event rs s = Some (env, rs', s')
          \<and> response_body (envelope_response env) = ChecksBody c
          \<and> checks_findings c = findings)"
proof (intro conjI)
  from assms(1) obtain arrival where
    loop: "cost_list_loop client cost_input None [] s = Some (Inr arrival, s')"
    and sorted: "findings = array_sort by_savings arrival"
    by (auto simp: get_trusted_advisor_findings_def cost_input_def split: option.splits sum.splits)
  from loop have "\<forall>f \<in> set arrival. numeric_savings f"
    using cost_list_loop_numeric [of client cost_input None "[]" s "(Inr arrival, s')"] by simp
  moreover from assms(2) sorted have "\<forall>f \<in> set arrival. is_double (savings f)"
    by (simp add: set_array_sort)
  ultimately have good: "\<forall>f \<in> set arrival. numeric_savings f \<and> is_double (savings f)"
    by simp
  then have num: "\<forall>f \<in> set findings. numeric_savings f"
    using sorted by (simp add: set_array_sort)
  from good have "sorted_wrt (\<lambda>a b. savings b \<le> savings a) (array_sort by_savings arrival)"
    by (rule sorted_array_sort)
  then have "sorted_wrt (\<lambda>a b. savings b \<le> savings a) findings"
    using sorted by simp
  then show "sorted_wrt savings_ge findings"
    by (rule sorted_wrt_mono_rel [rotated]) (use num in \<open>simp add: savings_ge_iff\<close>)
  from loop sorted
  show "\<exists>arrival. cost_list_loop client cost_input None [] s = Some (Inr arrival, s')
          \<and> mset findings = mset arrival
          \<and> (\<forall>v. filter (\<lambda>f. f_estimatedMonthlySavings f = v) findings =
                filter (\<lambda>f. f_estimatedMonthlySavings f = v) arrival)"
    by (auto simp: mset_array_sort filter_array_sort)
  from cost_handler_success [OF assms(1), of stringify now event rs]
  show "\<exists>env rs' c. cost_handler stringify now client event rs s = Some (env, rs', s')
          \<and> response_body (envelope_response env) = ChecksBody c
          \<and> checks_findings c = findings"
    by (simp add: function_response_def)
qed

text \<open>
  The example of the specification: the findings arrive with the savings 10, 30, 30
  and 5, and are returned as 30, 30, 10, 5 with the two findings of saving 30 in
  their arrival order.
\<close>

theorem sort_by_savings_witness:
  "map_option fst (cost_list_loop scripted cost_input None [] savings_remote)
     = Some (Inr [saving_finding ''a'' 10, saving_finding ''b'' 30, saving_finding ''c'' 30,
                  saving_finding ''d'' 5])
   \<and> map_option fst (get_trusted_advisor_findings scripted savings_remote)
     = Some (Inr [saving_finding ''b'' 30, saving_finding ''c'' 30, saving_finding ''a'' 10,
                  saving_finding ''d'' 5])
   \<and> list_all (\<lambda>f. is_double (savings f))
       [saving_finding ''b'' 30, saving_finding ''c'' 30, saving_finding ''a'' 10,
        saving_finding ''d'' 5]
   \<and> sorted_wrt savings_ge
       [saving_finding ''b'' 30, saving_finding ''c'' 30, saving_finding ''a'' 10,
        saving_finding ''d'' 5]"
proof -
  let ?arrival = "[saving_finding ''a'' 10, saving_finding ''b'' 30, saving_finding ''c'' 30,
      saving_finding ''d'' 5]"
  let ?sorted = "[saving_finding ''b'' 30, saving_finding ''c'' 30, saving_finding ''a'' 10,
      saving_finding ''d'' 5]"
  have num: "numeric_savings (saving_finding n v)" for n v
    by (simp add: saving_finding_def cost_finding_numeric)
  have sv: "savings (saving_finding n v) = v" for n v
    by (simp add: saving_finding_def savings_def cost_finding_def saving_summary_def or_zero_def
        Let_def)
  have dbl: "is_double 10" "is_double 30" "is_double 5"
    using round_double_int [of 10] round_double_int [of 30] round_double_int [of 5]
    by (simp_all add: is_double_def)
  have ans: "list_answers savings_remote =
      Inr \<lparr>recommendationSummaries =
              Some [saving_summary ''a'' 10, saving_summary ''b'' 30,
                    saving_summary ''c'' 30, saving_summary ''d'' 5],
            lo_nextToken = None\<rparr> # []"
    by (simp add: savings_remote_def)
  from cost_list_loop_last [OF ans, of _ cost_input None "[]"]
  obtain r' where loop: "cost_list_loop scripted cost_input None [] savings_remote
      = Some (Inr ?arrival, r')"
    by (simp add: truthy_def savings_remote_def saving_finding_def)
  have order: "array_sort by_savings ?arrival = ?sorted"
    by (simp add: array_sort_def positive_by_savings num sv dbl)
  from loop order have run: "get_trusted_advisor_findings scripted savings_remote
      = Some (Inr ?sorted, r')"
    by (simp add: get_trusted_advisor_findings_def cost_input_def)
  have doubles: "\<forall>f \<in> set ?sorted. is_double (savings f)"
    by (simp add: sv dbl)
  from sort_by_savings [OF run doubles] have "sorted_wrt savings_ge ?sorted"
    by blast
  with loop run doubles show ?thesis by (simp add: list_all_iff)
qed

section \<open>Envelopes and request validation\<close>

lemma function_response_fields:
  "response_actionGroup (envelope_response (function_response event b)) = or_empty (event_actionGroup event)"
  "response_function (envelope_response (function_response event b)) = event_function event"
  "response_responseState (envelope_response (function_response event b)) = None"
  "response_body (envelope_response (function_response event b)) = b"
  by (simp_all add: function_response_def)

lemma error_function_response_fields:
  "response_actionGroup (envelope_response (error_function_response event e)) = or_empty (event_actionGroup event)"
  "response_function (envelope_response (error_function_response event e)) = event_function event"
  "response_responseState (envelope_response (error_function_response event e)) = Some ''REPROMPT''"
  "response_body (envelope_response (error_function_response event e)) = ErrorBody (message e)"
  by (simp_all add: error_function_response_def)

lemma cost_handler_envelope:
  "cost_handler stringify now client event rs s = Some (env, rs', s') \<Longrightarrow>
   (\<exists>b. env = function_response event b) \<or> (\<exists>e. env = error_function_response event e)"
  by (auto simp: cost_handler_def Let_def split: option.splits sum.splits prod.splits)

lemma security_handler_envelope:
  "security_handler stringify now client event rs s = Some (env, rs', s') \<Longrightarrow>
   (\<exists>b. env = function_response event b) \<or> (\<exists>e. env = error_function_response event e)"
  by (auto simp: security_handler_def Let_def split: option.splits sum.splits prod.splits)

lemma resource_handler_envelope:
  "resource_handler stringify now client event rs s = Some (env, rs', s') \<Longrightarrow>
   (\<exists>b. env = function_response event b) \<or> (\<exists>e. env = error_function_response event e)"
  by (auto simp: resource_handler_def Let_def split: option.splits sum.splits prod.splits if_splits)

lemma resource_handler_invalid:
  assumes "\<not> truthy (find_recommendationIdentifier event)"
  shows "resource_handler stringify now client event rs s =
     Some (error_function_response event (Error ''recommendationIdentifier is required''),
       streamFunctionResponse
         (stringify (error_function_response event (Error ''recommendationIdentifier is required'')))
         (rs @ [SetContentType ''application/json'']), s)"
  using assms by (simp add: resource_handler_def Let_def)

lemma find_absent:
  assumes "\<forall>ps. event_parameters event = Some ps \<longrightarrow>
     (\<forall>p \<in> set ps. param_name p \<noteq> ''recommendationIdentifier'')"
  shows "find_recommendationIdentifier event = None"
proof (cases "event_parameters event")
  case None
  then show ?thesis by (simp add: find_recommendationIdentifier_def)
next
  case (Some ps)
  with assms have "\<forall>p \<in> set ps. param_name p \<noteq> ''recommendationIdentifier''" by simp
  then have "List.find (\<lambda>param. param_name param = ''recommendationIdentifier'') ps = None"
    by (simp add: find_None_iff)
  with Some show ?thesis by (simp add: find_recommendationIdentifier_def)
qed

text \<open>
  C4, as the code has it. Whenever one of the three handlers produces an envelope, on
  the success path or on the error path, \<open>response.actionGroup\<close> is the event's
  \<open>actionGroup\<close>, or the empty string when the event has none, and
  \<open>response.function\<close> is the event's \<open>function\<close> as it is: when the event has no
  \<open>function\<close>, the envelope has none either (it is not replaced by the empty string).
\<close>

theorem envelope_echo:
  assumes "cost_handler stringify now client event rs s = Some (env, rs', s')
     \<or> security_handler stringify now client event rs s = Some (env, rs', s')
     \<or> resource_handler stringify now client event rs s = Some (env, rs', s')"
  shows "((\<exists>b. env = function_response event b) \<or> (\<exists>e. env = error_function_response event e))
     \<and> response_actionGroup (envelope_response env) =
         (case event_actionGroup event of None \<Rightarrow> [] | Some g \<Rightarrow> g)
     \<and> response_function (envelope_response env) = event_function event"
proof -
  from assms have shape:
    "(\<exists>b. env = function_response event b) \<or> (\<exists>e. env = error_function_response event e)"
  proof (elim disjE)
    assume "cost_handler stringify now client event rs s = Some (env, rs', s')"
    then show ?thesis by (rule cost_handler_envelope)
  next
    assume "security_handler stringify now client event rs s = Some (env, rs', s')"
    then show ?thesis by (rule security_handler_envelope)
  next
    assume "resource_handler stringify now client event rs s = Some (env, rs', s')"
    then show ?thesis by (rule resource_handler_envelope)
  qed
  have "or_empty (event_actionGroup event) = (case event_actionGroup event of None \<Rightarrow> [] | Some g \<Rightarrow> g)"
    by (simp add: or_empty_def split: option.splits)
  with shape show ?thesis
    by (auto simp: function_response_fields error_function_response_fields)
qed

text \<open>
  A success envelope of the security handler and error envelopes of the resource list
  handler, for an event with both fields and for one with neither.
\<close>

theorem envelope_echo_witness:
  "map_option (\<lambda>(env, rest). (response_actionGroup (envelope_response env),
       response_function (envelope_response env), response_responseState (envelope_response env)))
     (security_handler example_stringify ''2024-01-01 00:00:00'' scripted example_event []
        example_remote) = Some (''X'', Some ''Y'', None)
   \<and> map_option (\<lambda>(env, rest). (response_actionGroup (envelope_response env),
       response_function (envelope_response env), response_responseState (envelope_response env)))
     (resource_handler example_stringify ''2024-01-01 00:00:00'' scripted region_event []
        no_answers) = Some (''X'', Some ''Y'', Some ''REPROMPT'')
   \<and> map_option (\<lambda>(env, rest). (response_actionGroup (envelope_response env),
       response_function (envelope_response env), response_responseState (envelope_response env)))
     (resource_handler example_stringify ''2024-01-01 00:00:00'' scripted anonymous_event []
        no_answers) = Some ([], None, Some ''REPROMPT'')"
proof -
  from example_security_run obtain r' where "get_security_findings scripted example_remote =
     Some (Inr [security_finding example_summary example_detail,
                security_finding example_summary example_detail], r')" ..
  note run1 = security_handler_success [OF this, of example_stringify "''2024-01-01 00:00:00''"
      example_event "[]"]
  have "\<not> truthy (find_recommendationIdentifier region_event)"
    by (simp add: find_recommendationIdentifier_def region_event_def truthy_def)
  note run2 = resource_handler_invalid [OF this, of example_stringify "''2024-01-01 00:00:00''"
      scripted "[]" no_answers]
  have "\<not> truthy (find_recommendationIdentifier anonymous_event)"
    by (simp add: find_recommendationIdentifier_def anonymous_event_def truthy_def)
  note run3 = resource_handler_invalid [OF this, of example_stringify "''2024-01-01 00:00:00''"
      scripted "[]" no_answers]
  have ev1: "or_empty (event_actionGroup example_event) = ''X''"
      "event_function example_event = Some ''Y''"
    by (simp_all add: example_event_def or_empty_def)
  have ev2: "or_empty (event_actionGroup region_event) = ''X''"
      "event_function region_event = Some ''Y''"
    by (simp_all add: region_event_def or_empty_def)
  have ev3: "or_empty (event_actionGroup anonymous_event) = []"
      "event_function anonymous_event = None"
    by (simp_all add: anonymous_event_def or_empty_def)
  from envelope_echo [OF disjI2, OF disjI1, OF run1]
  have a: "map_option (\<lambda>(env, rest). (response_actionGroup (envelope_response env),
       response_function (envelope_response env), response_responseState (envelope_response env)))
     (security_handler example_stringify ''2024-01-01 00:00:00'' scripted example_event []
        example_remote) = Some (''X'', Some ''Y'', None)"
    by (simp add: run1 ev1 function_response_fields)
  from envelope_echo [OF disjI2, OF disjI2, OF run2]
  have b: "map_option (\<lambda>(env, rest). (response_actionGroup (envelope_response env),
       response_function (envelope_response env), response_responseState (envelope_response env)))
     (resource_handler example_stringify ''2024-01-01 00:00:00'' scripted region_event []
        no_answers) = Some (''X'', Some ''Y'', Some ''REPROMPT'')"
    by (simp add: run2 ev2 error_function_response_fields)
  from envelope_echo [OF disjI2, OF disjI2, OF run3]
  have c: "map_option (\<lambda>(env, rest). (response_actionGroup (envelope_response env),
       response_function (envelope_response env), response_responseState (envelope_response env)))
     (resource_handler example_stringify ''2024-01-01 00:00:00'' scripted anonymous_event []
        no_answers) = Some ([], None, Some ''REPROMPT'')"
    by (simp add: run3 ev3 error_function_response_fields)
  from a b c show ?thesis by blast
qed

text \<open>
  For an event without \<open>function\<close>, the envelope has no \<open>function\<close> on the success
  path (security handler) and on the error path (resource list handler), where the
  empty string was claimed.
\<close>

theorem function_default_counterexample:
  "event_function anonymous_event = None
   \<and> map_option (\<lambda>(env, rest). response_function (envelope_response env))
     (security_handler example_stringify ''2024-01-01 00:00:00'' scripted anonymous_event []
        example_remote) = Some None
   \<and> map_option (\<lambda>(env, rest). response_function (envelope_response env))
     (resource_handler example_stringify ''2024-01-01 00:00:00'' scripted anonymous_event []
        no_answers) = Some None
   \<and> (None :: string option) \<noteq> Some []"
proof -
  from example_security_run obtain r' where "get_security_findings scripted example_remote =
     Some (Inr [security_finding example_summary example_detail,
                security_finding example_summary example_detail], r')" ..
  note run1 = security_handler_success [OF this, of example_stringify "''2024-01-01 00:00:00''"
      anonymous_event "[]"]
  have "\<not> truthy (find_recommendationIdentifier anonymous_event)"
    by (simp add: find_recommendationIdentifier_def anonymous_event_def truthy_def)
  note run3 = resource_handler_invalid [OF this, of example_stringify "''2024-01-01 00:00:00''"
      scripted "[]" no_answers]
  have ev3: "event_function anonymous_event = None"
    by (simp add: anonymous_event_def)
  show ?thesis
    by (simp add: run1 run3 function_response_fields error_function_response_fields ev3)
qed

text \<open>
  C6. When the event has no parameter named \<open>recommendationIdentifier\<close> (no
  \<open>parameters\<close> at all, or none of that name), the resource list handler answers with
  the error envelope: its body carries the message
  \<open>recommendationIdentifier is required\<close> and its \<open>responseState\<close> is
  \<open>REPROMPT\<close>. The outcome does not depend on the client, and the state of the remote
  service is returned as it was: no remote call is made.
\<close>

theorem missing_parameter:
  assumes "\<forall>ps. event_parameters event = Some ps \<longrightarrow>
     (\<forall>p \<in> set ps. param_name p \<noteq> ''recommendationIdentifier'')"
  shows "resource_handler stringify now client event rs s =
     Some (error_function_response event (Error ''recommendationIdentifier is required''),
       streamFunctionResponse
         (stringify (error_function_response event (Error ''recommendationIdentifier is required'')))
         (rs @ [SetContentType ''application/json'']), s)
    \<and> response_responseState (envelope_response
         (error_function_response event (Error ''recommendationIdentifier is required''))) = Some ''REPROMPT''
    \<and> response_body (envelope_response
         (error_function_response event (Error ''recommendationIdentifier is required''))) =
         ErrorBody ''recommendationIdentifier is required''"
proof -
  from find_absent [OF assms] have "\<not> truthy (find_recommendationIdentifier event)"
    by (simp add: truthy_def)
  from resource_handler_invalid [OF this] show ?thesis
    by (simp add: error_function_response_fields)
qed

text \<open>
  An event whose only parameter is \<open>region\<close>: the error envelope is streamed and the
  record of calls of the remote service stays empty.
\<close>

theorem missing_parameter_witness:
  "list_all (\<lambda>p. param_name p \<noteq> ''recommendationIdentifier'')
     [\<lparr>param_name = ''region'', param_value = Some ''eu-west-1''\<rparr>]
   \<and> resource_handler example_stringify ''2024-01-01 00:00:00'' scripted region_event []
        example_remote
     = Some (error_function_response region_event (Error ''recommendationIdentifier is required''),
         [SetContentType ''application/json'', Write (ascii ''1.0X''), End], example_remote)
   \<and> calls example_remote = []
   \<and> response_responseState (envelope_response
        (error_function_response region_event (Error ''recommendationIdentifier is required'')))
     = Some ''REPROMPT''"
proof -
  have h: "\<forall>ps. event_parameters region_event = Some ps \<longrightarrow>
     (\<forall>p \<in> set ps. param_name p \<noteq> ''recommendationIdentifier'')"
    by (simp add: region_event_def)
  have s: "streamFunctionResponse (example_stringify
        (error_function_response region_event (Error ''recommendationIdentifier is required'')))
      [SetContentType ''application/json'']
    = [SetContentType ''application/json'', Write (ascii ''1.0X''), End]"
    by (simp add: streamFunctionResponse_eq chunks_of_def CHUNK_SIZE_def example_stringify_def
        error_function_response_def region_event_def or_empty_def ascii_def)
  from missing_parameter [OF h, of example_stringify "''2024-01-01 00:00:00''" scripted "[]"
      example_remote] s
  have "resource_handler example_stringify ''2024-01-01 00:00:00'' scripted region_event []
        example_remote
     = Some (error_function_response region_event (Error ''recommendationIdentifier is required''),
         [SetContentType ''application/json'', Write (ascii ''1.0X''), End], example_remote)
   \<and> response_responseState (envelope_response
        (error_function_response region_event (Error ''recommendationIdentifier is required'')))
     = Some ''REPROMPT''"
    by simp
  moreover have "calls example_remote = []"
    by (simp add: example_remote_def)
  moreover have "list_all (\<lambda>p. param_name p \<noteq> ''recommendationIdentifier'')
     [\<lparr>param_name = ''region'', param_value = Some ''eu-west-1''\<rparr>]"
    by simp
  ultimately show ?thesis by blast
qed

text \<open>
  C10. When the event's first parameter named \<open>recommendationIdentifier\<close> has the
  empty string as value, the resource list handler behaves exactly as for an event
  without parameters: the same error envelope with \<open>responseState\<close> \<open>REPROMPT\<close>, and
  the state of the remote service returned as it was (no remote call).
\<close>

theorem empty_parameter:
  assumes "event_parameters event = Some ps"
    and "List.find (\<lambda>param. param_name param = ''recommendationIdentifier'') ps = Some p"
    and "param_value p = Some []"
  shows "resource_handler stringify now client event rs s =
     Some (error_function_response event (Error ''recommendationIdentifier is required''),
       streamFunctionResponse
         (stringify (error_function_response event (Error ''recommendationIdentifier is required'')))
         (rs @ [SetContentType ''application/json'']), s)
    \<and> resource_handler stringify now client event rs s =
       resource_handler stringify now client (event\<lparr>event_parameters := None\<rparr>) rs s
    \<and> response_responseState (envelope_response
         (error_function_response event (Error ''recommendationIdentifier is required''))) = Some ''REPROMPT''"
proof -
  from assms have "find_recommendationIdentifier event = Some []"
    by (simp add: find_recommendationIdentifier_def)
  then have a: "\<not> truthy (find_recommendationIdentifier event)" by (simp add: truthy_def)
  have b: "\<not> truthy (find_recommendationIdentifier (event\<lparr>event_parameters := None\<rparr>))"
    by (simp add: find_recommendationIdentifier_def truthy_def)
  have c: "error_function_response (event\<lparr>event_parameters := None\<rparr>) e = error_function_response event e" for e
    by (simp add: error_function_response_def)
  show ?thesis
    by (simp add: resource_handler_invalid [OF a] resource_handler_invalid [OF b] c
        error_function_response_fields)
qed

text \<open>An event with \<open>recommendationIdentifier = ''\<close>.\<close>

theorem empty_parameter_witness:
  "event_parameters empty_value_event =
     Some [\<lparr>param_name = ''recommendationIdentifier'', param_value = Some []\<rparr>]
   \<and> resource_handler example_stringify ''2024-01-01 00:00:00'' scripted empty_value_event []
        example_remote
     = Some (error_function_response empty_value_event (Error ''recommendationIdentifier is required''),
         [SetContentType ''application/json'', Write (ascii ''1.0X''), End], example_remote)
   \<and> resource_handler example_stringify ''2024-01-01 00:00:00'' scripted empty_value_event []
        example_remote
     = resource_handler example_stringify ''2024-01-01 00:00:00'' scripted
        (empty_value_event\<lparr>event_parameters := None\<rparr>) [] example_remote
   \<and> calls example_remote = []"
proof -
  have h1: "event_parameters empty_value_event =
     Some [\<lparr>param_name = ''recommendationIdentifier'', param_value = Some []\<rparr>]"
    by (simp add: empty_value_event_def)
  have h2: "List.find (\<lambda>param. param_name param = ''recommendationIdentifier'')
      [\<lparr>param_name = ''recommendationIdentifier'', param_value = Some []\<rparr>]
    = Some \<lparr>param_name = ''recommendationIdentifier'', param_value = Some []\<rparr>"
    by simp
  have h3: "param_value \<lparr>param_name = ''recommendationIdentifier'', param_value = Some []\<rparr> = Some []"
    by simp
  have s: "streamFunctionResponse (example_stringify
        (error_function_response empty_value_event (Error ''recommendationIdentifier is required'')))
      [SetContentType ''application/json'']
    = [SetContentType ''application/json'', Write (ascii ''1.0X''), End]"
    by (simp add: streamFunctionResponse_eq chunks_of_def CHUNK_SIZE_def example_stringify_def
        error_function_response_def empty_value_event_def or_empty_def ascii_def)
  note T = empty_parameter [OF h1 h2 h3, of example_stringify "''2024-01-01 00:00:00''" scripted "[]"
      example_remote]
  from T have eq1: "resource_handler example_stringify ''2024-01-01 00:00:00'' scripted
      empty_value_event [] example_remote
     = Some (error_function_response empty_value_event (Error ''recommendationIdentifier is required''),
         streamFunctionResponse (example_stringify
           (error_function_response empty_value_event (Error ''recommendationIdentifier is required'')))
           ([] @ [SetContentType ''application/json'']), example_remote)"
    by (rule conjunct1)
  from T have eq2: "resource_handler example_stringify ''2024-01-01 00:00:00'' scripted empty_value_event []
        example_remote
     = resource_handler example_stringify ''2024-01-01 00:00:00'' scripted
        (empty_value_event\<lparr>event_parameters := None\<rparr>) [] example_remote"
    by (rule conjunct1 [OF conjunct2])
  from eq1 s have "resource_handler example_stringify ''2024-01-01 00:00:00'' scripted
      empty_value_event [] example_remote
     = Some (error_function_response empty_value_event (Error ''recommendationIdentifier is required''),
         [SetContentType ''application/json'', Write (ascii ''1.0X''), End], example_remote)"
    by simp
  moreover have "calls example_remote = []"
    by (simp add: example_remote_def)
  ultimately show ?thesis using h1 eq2 by blast
qed

section \<open>Pagination, partial failure and failure of the list call\<close>

lemma enriched_all_succeed:
  "length ds = length items \<Longrightarrow> enriched mk items (map Inr ds @ later) = map2 mk items ds"
proof (induction items arbitrary: ds)
  case Nil
  then show ?case by simp
next
  case (Cons i items)
  then obtain d ds' where "ds = d # ds'" by (cases ds) auto
  with Cons show ?case by simp
qed

text \<open>
  C2, as the code has it. Let the remote list call return the pages \<open>ps @ [pl]\<close> in
  this order, every page of \<open>ps\<close> with a non-empty token and \<open>pl\<close> with an absent
  or empty one. Then the resource paginator returns (it terminates), and its result is
  exactly the concatenation of the items of all pages in the order returned, each
  copied into a record; it issues one list call per page, the first without token and
  each later one with the token of the page before. The loop of the cost provider, on
  pages \<open>qs @ [ql]\<close>, likewise returns and issues one list call per page with the
  token carried forward; what it accumulates is one finding for each item of the pages
  whose detail fetch succeeds, in the order returned, the other items being left out.
  When the detail fetch succeeds for every item, that is one finding per item.
\<close>

theorem pagination_complete:
  "(resource_answers r = map Inr (ps @ [pl]) @ rest
      \<and> list_all (\<lambda>p. truthy (lro_nextToken p)) ps
      \<and> \<not> truthy (lro_nextToken pl) \<longrightarrow>
    (\<exists>r'. get_resource_list scripted recommendationIdentifier r =
            Some (Inr (map to_record (concat (map resource_items (ps @ [pl])))), r')
          \<and> resource_answers r' = rest
          \<and> calls r' = calls r @ map ListRecommendationResourcesCommand
               (resource_input recommendationIdentifier
                # map (\<lambda>p. (resource_input recommendationIdentifier)\<lparr>lr_nextToken := lro_nextToken p\<rparr>) ps)))
   \<and> (list_answers r = map Inr (qs @ [ql]) @ rest'
      \<and> list_all (\<lambda>q. truthy (lo_nextToken q) \<and> recommendationSummaries q \<noteq> None) qs
      \<and> \<not> truthy (lo_nextToken ql) \<and> recommendationSummaries ql \<noteq> None \<longrightarrow>
    (\<exists>r'. cost_list_loop scripted cost_input None [] r =
            Some (Inr [cost_finding i d. (i, Inr d) \<leftarrow> zip (concat (map page_items (qs @ [ql]))) (get_answers r)], r')
          \<and> get_trusted_advisor_findings scripted r =
            Some (Inr (array_sort by_savings
              [cost_finding i d. (i, Inr d) \<leftarrow> zip (concat (map page_items (qs @ [ql]))) (get_answers r)]), r')
          \<and> list_answers r' = rest'
          \<and> list_calls (calls r') =
              list_calls (calls r) @ cost_input # map (\<lambda>q. cost_input\<lparr>li_nextToken := lo_nextToken q\<rparr>) qs)
    \<and> (get_answers r = map Inr ds @ later
        \<and> length ds = length (concat (map page_items (qs @ [ql]))) \<longrightarrow>
       (\<exists>r'. cost_list_loop scripted cost_input None [] r =
            Some (Inr (map2 cost_finding (concat (map page_items (qs @ [ql]))) ds), r'))))"
proof (intro conjI impI; elim conjE)
  assume res: "resource_answers r = map Inr (ps @ [pl]) @ rest"
    and more: "list_all (\<lambda>p. truthy (lro_nextToken p)) ps"
    and last: "\<not> truthy (lro_nextToken pl)"
  have base: "with_resource_token (resource_input recommendationIdentifier) None
      = resource_input recommendationIdentifier"
    by (simp add: with_resource_token_def truthy_def)
  show "\<exists>r'. get_resource_list scripted recommendationIdentifier r =
            Some (Inr (map to_record (concat (map resource_items (ps @ [pl])))), r')
          \<and> resource_answers r' = rest
          \<and> calls r' = calls r @ map ListRecommendationResourcesCommand
               (resource_input recommendationIdentifier
                # map (\<lambda>p. (resource_input recommendationIdentifier)\<lparr>lr_nextToken := lro_nextToken p\<rparr>) ps)"
    unfolding get_resource_list_def resource_input_def [symmetric]
    by (subst resource_list_loop_complete [OF res more last])
      (simp add: resource_trace_tokens [OF more] base)
next
  assume ans: "list_answers r = map Inr (qs @ [ql]) @ rest'"
    and more: "list_all (\<lambda>q. truthy (lo_nextToken q) \<and> recommendationSummaries q \<noteq> None) qs"
    and last: "\<not> truthy (lo_nextToken ql)" and items: "recommendationSummaries ql \<noteq> None"
  from more have toks: "list_all (\<lambda>q. truthy (lo_nextToken q)) qs"
    by (simp add: list_all_iff)
  have base: "with_token cost_input None = cost_input"
    by (simp add: with_token_def truthy_def)
  show "\<exists>r'. cost_list_loop scripted cost_input None [] r =
            Some (Inr [cost_finding i d. (i, Inr d) \<leftarrow> zip (concat (map page_items (qs @ [ql]))) (get_answers r)], r')
          \<and> get_trusted_advisor_findings scripted r =
            Some (Inr (array_sort by_savings
              [cost_finding i d. (i, Inr d) \<leftarrow> zip (concat (map page_items (qs @ [ql]))) (get_answers r)]), r')
          \<and> list_answers r' = rest'
          \<and> list_calls (calls r') =
              list_calls (calls r) @ cost_input # map (\<lambda>q. cost_input\<lparr>li_nextToken := lo_nextToken q\<rparr>) qs"
    unfolding get_trusted_advisor_findings_def cost_input_def [symmetric]
    by (subst (1 2) cost_list_loop_complete [OF ans more last items])
      (simp add: enriched_comprehension list_calls_append list_calls_cost_trace [OF toks] base)
next
  assume ans: "list_answers r = map Inr (qs @ [ql]) @ rest'"
    and more: "list_all (\<lambda>q. truthy (lo_nextToken q) \<and> recommendationSummaries q \<noteq> None) qs"
    and last: "\<not> truthy (lo_nextToken ql)" and items: "recommendationSummaries ql \<noteq> None"
    and gets: "get_answers r = map Inr ds @ later"
    and len: "length ds = length (concat (map page_items (qs @ [ql])))"
  show "\<exists>r'. cost_list_loop scripted cost_input None [] r =
            Some (Inr (map2 cost_finding (concat (map page_items (qs @ [ql]))) ds), r')"
    by (subst cost_list_loop_complete [OF ans more last items])
      (simp only: gets enriched_all_succeed [OF len], simp)
qed

text \<open>
  C2 as stated fails for the cost provider: the pages carry three items, the detail
  fetch of the second throws, and the loop accumulates two findings.
\<close>

theorem pagination_skips_counterexample:
  "list_answers example_remote =
     [Inr \<lparr>recommendationSummaries = Some [example_summary, bare_summary], lo_nextToken = Some ''t1''\<rparr>,
      Inr \<lparr>recommendationSummaries = Some [example_summary], lo_nextToken = None\<rparr>]
   \<and> concat (map page_items
       [\<lparr>recommendationSummaries = Some [example_summary, bare_summary], lo_nextToken = Some ''t1''\<rparr>,
        \<lparr>recommendationSummaries = Some [example_summary], lo_nextToken = None\<rparr>])
     = [example_summary, bare_summary, example_summary]
   \<and> get_answers example_remote = [Inr example_detail, Inl (Error ''throttled''), Inr example_detail]
   \<and> map_option fst (cost_list_loop scripted cost_input None [] example_remote) =
     Some (Inr [cost_finding example_summary example_detail, cost_finding example_summary example_detail])"
proof -
  let ?q1 = "\<lparr>recommendationSummaries = Some [example_summary, bare_summary], lo_nextToken = Some ''t1''\<rparr>"
  let ?q2 = "\<lparr>recommendationSummaries = Some [example_summary], lo_nextToken = None\<rparr>"
  have h4: "list_answers example_remote = map Inr ([?q1] @ [?q2]) @ []"
    by (simp add: example_remote_def)
  have h5: "list_all (\<lambda>q. truthy (lo_nextToken q) \<and> recommendationSummaries q \<noteq> None) [?q1]"
    by (simp add: truthy_def)
  have h6: "\<not> truthy (lo_nextToken ?q2)"
    by (simp add: truthy_def)
  have h7: "recommendationSummaries ?q2 \<noteq> None"
    by simp
  have gets: "get_answers example_remote =
      [Inr example_detail, Inl (Error ''throttled''), Inr example_detail]"
    by (simp add: example_remote_def)
  have "map_option fst (cost_list_loop scripted cost_input None [] example_remote) =
     Some (Inr [cost_finding example_summary example_detail, cost_finding example_summary example_detail])"
    by (subst cost_list_loop_complete [OF h4 h5 h6 h7]) (simp add: gets page_items_def)
  with h4 gets show ?thesis by (simp add: page_items_def)
qed

text \<open>
  Two pages of resources; two pages of recommendations with one failed detail fetch;
  one page of recommendations whose four detail fetches succeed.
\<close>

theorem pagination_complete_witness:
  "map_option fst (get_resource_list scripted ''arn:1'' example_remote) =
     Some (Inr [to_record (example_resource ''a''), to_record (example_resource ''b'')])
   \<and> map_option (calls \<circ> snd) (get_resource_list scripted ''arn:1'' example_remote) =
     Some [ListRecommendationResourcesCommand (resource_input ''arn:1''),
           ListRecommendationResourcesCommand ((resource_input ''arn:1'')\<lparr>lr_nextToken := Some ''t1''\<rparr>)]
   \<and> map_option fst (cost_list_loop scripted cost_input None [] example_remote) =
     Some (Inr [cost_finding example_summary example_detail, cost_finding example_summary example_detail])
   \<and> map_option (list_calls \<circ> calls \<circ> snd) (cost_list_loop scripted cost_input None [] example_remote) =
     Some [cost_input, cost_input\<lparr>li_nextToken := Some ''t1''\<rparr>]
   \<and> map_option fst (cost_list_loop scripted cost_input None [] savings_remote) =
     Some (Inr [saving_finding ''a'' 10, saving_finding ''b'' 30, saving_finding ''c'' 30,
                saving_finding ''d'' 5])"
proof -
  let ?p1 = "\<lparr>recommendationResourceSummaries = Some [example_resource ''a''], lro_nextToken = Some ''t1''\<rparr>"
  let ?p2 = "\<lparr>recommendationResourceSummaries = Some [example_resource ''b''], lro_nextToken = Some []\<rparr>"
  let ?q1 = "\<lparr>recommendationSummaries = Some [example_summary, bare_summary], lo_nextToken = Some ''t1''\<rparr>"
  let ?q2 = "\<lparr>recommendationSummaries = Some [example_summary], lo_nextToken = None\<rparr>"
  let ?q = "\<lparr>recommendationSummaries =
              Some [saving_summary ''a'' 10, saving_summary ''b'' 30,
                    saving_summary ''c'' 30, saving_summary ''d'' 5],
            lo_nextToken = None\<rparr>"
  have h1: "resource_answers example_remote = map Inr ([?p1] @ [?p2]) @ []
      \<and> list_all (\<lambda>p. truthy (lro_nextToken p)) [?p1] \<and> \<not> truthy (lro_nextToken ?p2)"
    by (simp add: example_remote_def truthy_def)
  have h2: "list_answers example_remote = map Inr ([?q1] @ [?q2]) @ []
      \<and> list_all (\<lambda>q. truthy (lo_nextToken q) \<and> recommendationSummaries q \<noteq> None) [?q1]
      \<and> \<not> truthy (lo_nextToken ?q2) \<and> recommendationSummaries ?q2 \<noteq> None"
    by (simp add: example_remote_def truthy_def)
  have h3: "list_answers savings_remote = map Inr ([] @ [?q]) @ []
      \<and> list_all (\<lambda>q. truthy (lo_nextToken q) \<and> recommendationSummaries q \<noteq> None) []
      \<and> \<not> truthy (lo_nextToken ?q) \<and> recommendationSummaries ?q \<noteq> None"
    by (simp add: savings_remote_def truthy_def)
  have h4: "get_answers savings_remote =
        map Inr [example_detail, example_detail, example_detail, example_detail] @ []
      \<and> length [example_detail, example_detail, example_detail, example_detail]
        = length (concat (map page_items ([] @ [?q])))"
    by (simp add: savings_remote_def page_items_def)
  have calls0: "calls example_remote = []" and gets: "get_answers example_remote =
      [Inr example_detail, Inl (Error ''throttled''), Inr example_detail]"
    by (simp_all add: example_remote_def)
  note T = pagination_complete [of example_remote "[?p1]" ?p2 "[]" "''arn:1''" "[?q1]" ?q2 "[]"]
  from T [THEN conjunct1, THEN mp, OF h1] calls0
  have a: "map_option fst (get_resource_list scripted ''arn:1'' example_remote) =
       Some (Inr [to_record (example_resource ''a''), to_record (example_resource ''b'')])
     \<and> map_option (calls \<circ> snd) (get_resource_list scripted ''arn:1'' example_remote) =
       Some [ListRecommendationResourcesCommand (resource_input ''arn:1''),
             ListRecommendationResourcesCommand ((resource_input ''arn:1'')\<lparr>lr_nextToken := Some ''t1''\<rparr>)]"
    by (auto simp: resource_items_def)
  from T [THEN conjunct2, THEN mp, OF h2, THEN conjunct1] calls0 gets
  have b: "map_option fst (cost_list_loop scripted cost_input None [] example_remote) =
       Some (Inr [cost_finding example_summary example_detail, cost_finding example_summary example_detail])
     \<and> map_option (list_calls \<circ> calls \<circ> snd) (cost_list_loop scripted cost_input None [] example_remote) =
       Some [cost_input, cost_input\<lparr>li_nextToken := Some ''t1''\<rparr>]"
    by (auto simp: page_items_def)
  from pagination_complete [of savings_remote _ _ _ _ "[]" ?q "[]"
      "[example_detail, example_detail, example_detail, example_detail]" "[]",
      THEN conjunct2, THEN mp, OF h3, THEN conjunct2, THEN mp, OF h4]
  have c: "map_option fst (cost_list_loop scripted cost_input None [] savings_remote) =
     Some (Inr [saving_finding ''a'' 10, saving_finding ''b'' 30, saving_finding ''c'' 30,
                saving_finding ''d'' 5])"
    by (auto simp: page_items_def saving_finding_def)
  from a b c show ?thesis by blast
qed

text \<open>
  C3. Against a remote service whose detail fetches succeed or throw in any pattern,
  the enrichment of a list of summaries adds exactly one finding for each summary whose
  fetch succeeds, in arrival order, and none for the others; a failed fetch does not
  stop the enrichment of later summaries. When the list calls succeed, the invocation
  of the cost handler and of the security handler ends with a success envelope (no
  \<open>responseState\<close>) carrying these findings, sorted by savings in the cost handler.
\<close>

theorem partial_failure_isolation:
  assumes "list_answers r = map Inr (qs @ [ql]) @ rest"
    and "list_all (\<lambda>q. truthy (lo_nextToken q) \<and> recommendationSummaries q \<noteq> None) qs"
    and "\<not> truthy (lo_nextToken ql)" and "recommendationSummaries ql \<noteq> None"
  shows "fst (enrich_all cost_finding scripted items findings r) =
       findings @ [cost_finding i d. (i, Inr d) \<leftarrow> zip items (get_answers r)]
    \<and> fst (enrich_all security_finding scripted items findings r) =
       findings @ [security_finding i d. (i, Inr d) \<leftarrow> zip items (get_answers r)]
    \<and> (\<exists>kept rs' r'.
         kept = array_sort by_savings
           [cost_finding i d. (i, Inr d) \<leftarrow> zip (concat (map page_items (qs @ [ql]))) (get_answers r)]
         \<and> cost_handler stringify now scripted event rs r =
           Some (function_response event (ChecksBody
              \<lparr>checks_summary =
                 \<lparr>totalFindings = length kept,
                  totalPotentialSavings = Some (to_fixed2 (total_savings kept)),
                  checks_lastUpdated = now\<rparr>,
               checks_findings = kept\<rparr>), rs', r'))
    \<and> (\<exists>kept rs' r'.
         kept = [security_finding i d. (i, Inr d) \<leftarrow> zip (concat (map page_items (qs @ [ql]))) (get_answers r)]
         \<and> security_handler stringify now scripted event rs r =
           Some (function_response event (ChecksBody
              \<lparr>checks_summary =
                 \<lparr>totalFindings = length kept, totalPotentialSavings = None,
                  checks_lastUpdated = now\<rparr>,
               checks_findings = kept\<rparr>), rs', r'))
    \<and> response_responseState (envelope_response (function_response event b)) = None"
proof (intro conjI)
  show "fst (enrich_all cost_finding scripted items findings r) =
       findings @ [cost_finding i d. (i, Inr d) \<leftarrow> zip items (get_answers r)]"
    by (simp add: enrich_all_scripted enriched_comprehension)
  show "fst (enrich_all security_finding scripted items findings r) =
       findings @ [security_finding i d. (i, Inr d) \<leftarrow> zip items (get_answers r)]"
    by (simp add: enrich_all_scripted enriched_comprehension)
  have "\<exists>r'. get_trusted_advisor_findings scripted r =
      Some (Inr (array_sort by_savings
        [cost_finding i d. (i, Inr d) \<leftarrow> zip (concat (map page_items (qs @ [ql]))) (get_answers r)]), r')"
    unfolding get_trusted_advisor_findings_def
    by (subst cost_list_loop_complete [OF assms]) (simp add: enriched_comprehension)
  then obtain r' where "get_trusted_advisor_findings scripted r =
      Some (Inr (array_sort by_savings
        [cost_finding i d. (i, Inr d) \<leftarrow> zip (concat (map page_items (qs @ [ql]))) (get_answers r)]), r')" ..
  from cost_handler_success [OF this]
  show "\<exists>kept rs' r'.
         kept = array_sort by_savings
           [cost_finding i d. (i, Inr d) \<leftarrow> zip (concat (map page_items (qs @ [ql]))) (get_answers r)]
         \<and> cost_handler stringify now scripted event rs r =
           Some (function_response event (ChecksBody
              \<lparr>checks_summary =
                 \<lparr>totalFindings = length kept,
                  totalPotentialSavings = Some (to_fixed2 (total_savings kept)),
                  checks_lastUpdated = now\<rparr>,
               checks_findings = kept\<rparr>), rs', r')"
    by blast
  from assms(2) have toks: "list_all (\<lambda>q. truthy (lo_nextToken q)) qs"
    by (simp add: list_all_iff)
  from security_list_loop_complete [OF assms(1) toks assms(3), of None "[]"]
  obtain r'' where "get_security_findings scripted r =
      Some (Inr [security_finding i d. (i, Inr d) \<leftarrow> zip (concat (map page_items (qs @ [ql]))) (get_answers r)], r'')"
    by (auto simp: get_security_findings_def enriched_comprehension)
  from security_handler_success [OF this]
  show "\<exists>kept rs' r'.
         kept = [security_finding i d. (i, Inr d) \<leftarrow> zip (concat (map page_items (qs @ [ql]))) (get_answers r)]
         \<and> security_handler stringify now scripted event rs r =
           Some (function_response event (ChecksBody
              \<lparr>checks_summary =
                 \<lparr>totalFindings = length kept, totalPotentialSavings = None,
                  checks_lastUpdated = now\<rparr>,
               checks_findings = kept\<rparr>), rs', r')"
    by blast
  show "response_responseState (envelope_response (function_response event b)) = None"
    by (simp add: function_response_fields)
qed

text \<open>
  The example of the specification: three summaries, the detail fetch of the second
  throws; the handlers return success envelopes with two findings.
\<close>

theorem partial_failure_isolation_witness:
  "get_answers example_remote = [Inr example_detail, Inl (Error ''throttled''), Inr example_detail]
   \<and> fst (enrich_all cost_finding scripted [example_summary, bare_summary, example_summary] []
        example_remote)
     = [cost_finding example_summary example_detail, cost_finding example_summary example_detail]
   \<and> map_option fst (security_handler example_stringify ''2024-01-01 00:00:00'' scripted
        example_event [] example_remote)
     = Some (function_response example_event (ChecksBody
          \<lparr>checks_summary =
             \<lparr>totalFindings = 2, totalPotentialSavings = None,
              checks_lastUpdated = ''2024-01-01 00:00:00''\<rparr>,
           checks_findings =
             [security_finding example_summary example_detail,
              security_finding example_summary example_detail]\<rparr>))
   \<and> map_option fst (cost_handler example_stringify ''2024-01-01 00:00:00'' scripted
        example_event [] example_remote)
     = Some (function_response example_event (ChecksBody
          \<lparr>checks_summary =
             \<lparr>totalFindings = 2, totalPotentialSavings = Some (Num 60),
              checks_lastUpdated = ''2024-01-01 00:00:00''\<rparr>,
           checks_findings =
             [cost_finding example_summary example_detail,
              cost_finding example_summary example_detail]\<rparr>))"
proof -
  let ?q1 = "\<lparr>recommendationSummaries = Some [example_summary, bare_summary], lo_nextToken = Some ''t1''\<rparr>"
  let ?q2 = "\<lparr>recommendationSummaries = Some [example_summary], lo_nextToken = None\<rparr>"
  have h4: "list_answers example_remote = map Inr ([?q1] @ [?q2]) @ []"
    by (simp add: example_remote_def)
  have h5: "list_all (\<lambda>q. truthy (lo_nextToken q) \<and> recommendationSummaries q \<noteq> None) [?q1]"
    by (simp add: truthy_def)
  have h6: "\<not> truthy (lo_nextToken ?q2)"
    by (simp add: truthy_def)
  have h7: "recommendationSummaries ?q2 \<noteq> None"
    by simp
  have gets: "get_answers example_remote =
      [Inr example_detail, Inl (Error ''throttled''), Inr example_detail]"
    by (simp add: example_remote_def)
  have saving: "savings (cost_finding example_summary example_detail) = 30"
    by (simp add: savings_def cost_finding_def example_summary_def or_zero_def Let_def)
  have sorted: "array_sort by_savings
      [cost_finding example_summary example_detail, cost_finding example_summary example_detail]
    = [cost_finding example_summary example_detail, cost_finding example_summary example_detail]"
    by (simp add: array_sort_def same_savings_not_positive)
  have total: "to_fixed2 (total_savings
      [cost_finding example_summary example_detail, cost_finding example_summary example_detail])
    = Num 60"
  proof -
    have fl: "\<lfloor>12001 / 2 :: rat\<rfloor> = 6000" by (rule floor_unique) simp_all
    from round_double_int [of 30] have r30: "round_double 30 = Num 30" by simp
    from round_double_int [of 60] have r60: "round_double 60 = Num 60" by simp
    have "total_savings
        [cost_finding example_summary example_detail, cost_finding example_summary example_detail]
      = Num 60"
      by (simp add: total_savings_def or_zero_savings cost_finding_numeric saving r30 r60)
    then show ?thesis by (simp add: to_fixed2_def fl r60)
  qed
  from partial_failure_isolation [OF h4 h5 h6 h7,
      of "[example_summary, bare_summary, example_summary]" "[]" example_stringify
        "''2024-01-01 00:00:00''" example_event "[]"]
    gets sorted total
  show ?thesis
    by (auto simp: page_items_def numeral_2_eq_2)
qed

text \<open>
  C7. When a list call throws, after any number of pages read, the invocation produces
  the error envelope, and only it: the stream receives the content type, the chunks of
  that one envelope and the end. The envelope has \<open>responseState\<close> \<open>REPROMPT\<close>, and
  its body carries the message of the error thrown and no findings or resources. This
  holds for the cost handler, for the security handler and for the resource list
  handler, each under the conditions of its own list call only.
\<close>

theorem list_failure_aborts:
  "(list_answers r = map Inr qs @ Inl e # rest
      \<and> list_all (\<lambda>q. truthy (lo_nextToken q) \<and> recommendationSummaries q \<noteq> None) qs \<longrightarrow>
    (\<exists>r'. cost_handler stringify now scripted event rs r =
           Some (error_function_response event e,
             streamFunctionResponse (stringify (error_function_response event e))
               (rs @ [SetContentType ''application/json'']), r')))
   \<and> (list_answers r = map Inr qs @ Inl e # rest
      \<and> list_all (\<lambda>q. truthy (lo_nextToken q)) qs \<longrightarrow>
    (\<exists>r'. security_handler stringify now scripted event rs r =
           Some (error_function_response event e,
             streamFunctionResponse (stringify (error_function_response event e))
               (rs @ [SetContentType ''application/json'']), r')))
   \<and> (resource_answers r = map Inr ps @ Inl e # rest'
      \<and> list_all (\<lambda>p. truthy (lro_nextToken p)) ps
      \<and> truthy (find_recommendationIdentifier event) \<longrightarrow>
    (\<exists>r'. resource_handler stringify now scripted event rs r =
           Some (error_function_response event e,
             streamFunctionResponse (stringify (error_function_response event e))
               (rs @ [SetContentType ''application/json'']), r')))
   \<and> response_responseState (envelope_response (error_function_response event e)) = Some ''REPROMPT''
   \<and> response_body (envelope_response (error_function_response event e)) = ErrorBody (message e)"
proof (intro conjI impI; (elim conjE)?)
  assume ans: "list_answers r = map Inr qs @ Inl e # rest"
    and pages: "list_all (\<lambda>q. truthy (lo_nextToken q) \<and> recommendationSummaries q \<noteq> None) qs"
  from cost_list_loop_fails [OF ans pages, where tok = None and findings = "[]" and input =
      "\<lparr>li_maxResults = 200, li_pillar = ''cost_optimizing'', li_status = ''warning'',
        li_nextToken = None\<rparr>"]
  obtain r1 where "get_trusted_advisor_findings scripted r = Some (Inl e, r1)"
    by (fastforce simp: get_trusted_advisor_findings_def)
  from cost_handler_error [OF this]
  show "\<exists>r'. cost_handler stringify now scripted event rs r =
           Some (error_function_response event e,
             streamFunctionResponse (stringify (error_function_response event e))
               (rs @ [SetContentType ''application/json'']), r')"
    by blast
next
  assume ans: "list_answers r = map Inr qs @ Inl e # rest"
    and toks: "list_all (\<lambda>q. truthy (lo_nextToken q)) qs"
  from security_list_loop_fails [OF ans toks, where tok = None and findings = "[]"]
  obtain r2 where "get_security_findings scripted r = Some (Inl e, r2)"
    by (fastforce simp: get_security_findings_def)
  from security_handler_error [OF this]
  show "\<exists>r'. security_handler stringify now scripted event rs r =
           Some (error_function_response event e,
             streamFunctionResponse (stringify (error_function_response event e))
               (rs @ [SetContentType ''application/json'']), r')"
    by blast
next
  assume res: "resource_answers r = map Inr ps @ Inl e # rest'"
    and toks: "list_all (\<lambda>p. truthy (lro_nextToken p)) ps"
    and ident: "truthy (find_recommendationIdentifier event)"
  from resource_list_loop_fails [OF res toks, where tok = None and resources = "[]" and input =
      "\<lparr>lr_maxResults = 200,
        lr_recommendationIdentifier = or_empty (find_recommendationIdentifier event),
        lr_nextToken = None\<rparr>"]
  obtain r3 where "get_resource_list scripted (or_empty (find_recommendationIdentifier event)) r
      = Some (Inl e, r3)"
    by (fastforce simp: get_resource_list_def)
  from resource_handler_error [OF ident this]
  show "\<exists>r'. resource_handler stringify now scripted event rs r =
           Some (error_function_response event e,
             streamFunctionResponse (stringify (error_function_response event e))
               (rs @ [SetContentType ''application/json'']), r')"
    by blast
next
  show "response_responseState (envelope_response (error_function_response event e)) = Some ''REPROMPT''"
    by (simp add: error_function_response_fields)
next
  show "response_body (envelope_response (error_function_response event e)) = ErrorBody (message e)"
    by (simp add: error_function_response_fields)
qed

text \<open>The second list call is rejected after a first page was read and enriched.\<close>

theorem list_failure_aborts_witness:
  "map_option fst (cost_handler example_stringify ''2024-01-01 00:00:00'' scripted
        example_event [] failing_remote)
     = Some (error_function_response example_event (Error ''AccessDenied''))
   \<and> map_option fst (security_handler example_stringify ''2024-01-01 00:00:00'' scripted
        example_event [] failing_remote)
     = Some (error_function_response example_event (Error ''AccessDenied''))
   \<and> map_option fst (resource_handler example_stringify ''2024-01-01 00:00:00'' scripted
        example_event [] failing_remote)
     = Some (error_function_response example_event (Error ''Throttling''))
   \<and> response_body (envelope_response (error_function_response example_event (Error ''AccessDenied'')))
     = ErrorBody ''AccessDenied''"
proof -
  let ?p1 = "\<lparr>recommendationResourceSummaries = Some [example_resource ''a''], lro_nextToken = Some ''t1''\<rparr>"
  let ?q1 = "\<lparr>recommendationSummaries = Some [example_summary], lo_nextToken = Some ''t1''\<rparr>"
  have h1: "list_answers failing_remote = map Inr [?q1] @ Inl (Error ''AccessDenied'') # []
      \<and> list_all (\<lambda>q. truthy (lo_nextToken q) \<and> recommendationSummaries q \<noteq> None) [?q1]"
    by (simp add: failing_remote_def truthy_def)
  have h2: "list_answers failing_remote = map Inr [?q1] @ Inl (Error ''AccessDenied'') # []
      \<and> list_all (\<lambda>q. truthy (lo_nextToken q)) [?q1]"
    by (simp add: failing_remote_def truthy_def)
  have h3: "resource_answers failing_remote = map Inr [?p1] @ Inl (Error ''Throttling'') # []
      \<and> list_all (\<lambda>p. truthy (lro_nextToken p)) [?p1]
      \<and> truthy (find_recommendationIdentifier example_event)"
    by (simp add: failing_remote_def find_recommendationIdentifier_def example_event_def truthy_def)
  note T = list_failure_aborts [of failing_remote _ _ _ example_stringify
      "''2024-01-01 00:00:00''" example_event "[]"]
  from T [of "[?q1]" "Error ''AccessDenied''" "[]", THEN conjunct1, THEN mp, OF h1]
  have a: "map_option fst (cost_handler example_stringify ''2024-01-01 00:00:00'' scripted
        example_event [] failing_remote)
     = Some (error_function_response example_event (Error ''AccessDenied''))"
    by auto
  from T [of "[?q1]" "Error ''AccessDenied''" "[]", THEN conjunct2, THEN conjunct1, THEN mp, OF h2]
  have b: "map_option fst (security_handler example_stringify ''2024-01-01 00:00:00'' scripted
        example_event [] failing_remote)
     = Some (error_function_response example_event (Error ''AccessDenied''))"
    by auto
  from T [of _ "Error ''Throttling''" _ "[?p1]" "[]",
      THEN conjunct2, THEN conjunct2, THEN conjunct1, THEN mp, OF h3]
  have c: "map_option fst (resource_handler example_stringify ''2024-01-01 00:00:00'' scripted
        example_event [] failing_remote)
     = Some (error_function_response example_event (Error ''Throttling''))"
    by auto
  from T [of "[?q1]" "Error ''AccessDenied''" "[]"]
  have d: "response_body (envelope_response (error_function_response example_event (Error ''AccessDenied'')))
     = ErrorBody ''AccessDenied''"
    by simp
  from a b c d show ?thesis by blast
qed

end
